theory Spec2Isabelle
  imports Complex_Main "HOL-Library.Multiset"
begin

section \<open>JavaScript numbers and Date objects\<close>

text \<open>
  A JavaScript number is modelled as an exact rational or one of the three non-finite
  doubles. Every arithmetic operation takes the rounding function \<open>fl\<close> of the double
  format as a parameter and applies it to the exact result; positive and negative zero
  are identified (the program never divides by a negative zero: a difference of two
  equal finite numbers is \<open>+0\<close>), and overflow of a finite result is not modelled (the
  operands are millisecond time stamps, far inside the double range).
\<close>

datatype number = NaN | NegInf | PosInf | Fin rat

text \<open>The relational operators: every comparison with \<open>NaN\<close> is false.\<close>

fun js_lt :: "number \<Rightarrow> number \<Rightarrow> bool" where
  "js_lt NaN _ = False"
| "js_lt _ NaN = False"
| "js_lt (Fin a) (Fin b) = (a < b)"
| "js_lt NegInf NegInf = False"
| "js_lt NegInf _ = True"
| "js_lt _ NegInf = False"
| "js_lt PosInf _ = False"
| "js_lt _ PosInf = True"

definition js_gt :: "number \<Rightarrow> number \<Rightarrow> bool" where
  "js_gt a b = js_lt b a"

definition js_le :: "number \<Rightarrow> number \<Rightarrow> bool" where
  "js_le a b = (a \<noteq> NaN \<and> b \<noteq> NaN \<and> \<not> js_lt b a)"

fun Math_min :: "number \<Rightarrow> number \<Rightarrow> number" where
  "Math_min NaN _ = NaN"
| "Math_min _ NaN = NaN"
| "Math_min a b = (if js_lt b a then b else a)"

fun Math_max :: "number \<Rightarrow> number \<Rightarrow> number" where
  "Math_max NaN _ = NaN"
| "Math_max _ NaN = NaN"
| "Math_max a b = (if js_lt a b then b else a)"

fun js_sub :: "(rat \<Rightarrow> rat) \<Rightarrow> number \<Rightarrow> number \<Rightarrow> number" where
  "js_sub fl NaN _ = NaN"
| "js_sub fl _ NaN = NaN"
| "js_sub fl (Fin x) (Fin y) = Fin (fl (x - y))"
| "js_sub fl PosInf PosInf = NaN"
| "js_sub fl NegInf NegInf = NaN"
| "js_sub fl PosInf _ = PosInf"
| "js_sub fl NegInf _ = NegInf"
| "js_sub fl _ PosInf = NegInf"
| "js_sub fl _ NegInf = PosInf"

fun js_div :: "(rat \<Rightarrow> rat) \<Rightarrow> number \<Rightarrow> number \<Rightarrow> number" where
  "js_div fl NaN _ = NaN"
| "js_div fl _ NaN = NaN"
| "js_div fl (Fin x) (Fin y) =
     (if y = 0 then (if 0 < x then PosInf else if x < 0 then NegInf else NaN)
      else Fin (fl (x / y)))"
| "js_div fl (Fin x) _ = Fin 0"
| "js_div fl PosInf (Fin y) = (if y < 0 then NegInf else PosInf)"
| "js_div fl NegInf (Fin y) = (if y < 0 then PosInf else NegInf)"
| "js_div fl _ _ = NaN"

fun js_mul :: "(rat \<Rightarrow> rat) \<Rightarrow> number \<Rightarrow> number \<Rightarrow> number" where
  "js_mul fl NaN _ = NaN"
| "js_mul fl _ NaN = NaN"
| "js_mul fl (Fin x) (Fin y) = Fin (fl (x * y))"
| "js_mul fl PosInf (Fin y) = (if y = 0 then NaN else if y < 0 then NegInf else PosInf)"
| "js_mul fl NegInf (Fin y) = (if y = 0 then NaN else if y < 0 then PosInf else NegInf)"
| "js_mul fl (Fin x) PosInf = (if x = 0 then NaN else if x < 0 then NegInf else PosInf)"
| "js_mul fl (Fin x) NegInf = (if x = 0 then NaN else if x < 0 then PosInf else NegInf)"
| "js_mul fl PosInf PosInf = PosInf"
| "js_mul fl NegInf NegInf = PosInf"
| "js_mul fl _ _ = NegInf"

text \<open>
  A \<open>Date\<close> object holds a time value: an integral number of milliseconds, or \<open>NaN\<close>
  (an Invalid Date). Comparing two dates with \<open><\<close>, \<open><=\<close> or \<open>></\<close> compares their time
  values as numbers, and \<open>a - b\<close> subtracts them.
\<close>

datatype date = InvalidDate | Date int

fun getTime :: "date \<Rightarrow> number" where
  "getTime InvalidDate = NaN"
| "getTime (Date t) = Fin (of_int t)"

definition date_lt :: "date \<Rightarrow> date \<Rightarrow> bool" where
  "date_lt a b = js_lt (getTime a) (getTime b)"

definition date_gt :: "date \<Rightarrow> date \<Rightarrow> bool" where
  "date_gt a b = js_gt (getTime a) (getTime b)"

definition date_le :: "date \<Rightarrow> date \<Rightarrow> bool" where
  "date_le a b = js_le (getTime a) (getTime b)"

text \<open>
  \<open>new Date(n)\<close> for a number \<open>n\<close>: the time value is \<open>TimeClip(n)\<close>, which is \<open>NaN\<close> for
  a non-finite \<open>n\<close> and beyond 8.64e15 ms on either side of the epoch, and \<open>n\<close> truncated
  towards zero otherwise.
\<close>

definition maxTime :: int where
  "maxTime = 8640000000000000"

fun newDate_number :: "number \<Rightarrow> date" where
  "newDate_number (Fin r) =
     (if \<bar>r\<bar> > of_int maxTime then InvalidDate
      else Date (if 0 \<le> r then \<lfloor>r\<rfloor> else \<lceil>r\<rceil>))"
| "newDate_number _ = InvalidDate"

text \<open>The dates a program can hold: \<open>TimeClip\<close> has been applied to each of them.\<close>

fun inRange :: "date \<Rightarrow> bool" where
  "inRange InvalidDate = True"
| "inRange (Date t) = (\<bar>t\<bar> \<le> maxTime)"

section \<open>Events, the override clamp and the classifier (popup.js)\<close>

text \<open>
  JSON values as \<open>res.json()\<close> delivers them. Numbers are restricted to the integers
  that a double holds exactly and prints in plain decimal (the provider's numeric fields
  are never read by the program).
\<close>

datatype jsval =
    JUndefined
  | JNull
  | JBool bool
  | JNum int
  | JStr string
  | JArr "jsval list"
  | JObj "(string \<times> jsval) list"

text \<open>
  The object \<open>normalizeEvent\<close> builds, with the flag \<open>_manuallyCompleted\<close> that
  \<open>applyCompletedIds\<close> adds later (\<open>False\<close> while the property is absent).
\<close>

record event =
  ev_id :: jsval
  ev_title :: jsval
  ev_start :: date
  ev_end :: date
  ev_manuallyCompleted :: bool

record classification =
  current :: "event option"
  nxt :: "event option"
  upcoming :: "event list"
  past :: "event list"

definition classifyEvents :: "event list \<Rightarrow> date \<Rightarrow> classification" where
  "classifyEvents events now =
     (let cur = find (\<lambda>e. date_le (ev_start e) now \<and> date_gt (ev_end e) now) events;
          future = filter (\<lambda>e. date_gt (ev_start e) now) events;
          next = (case future of [] \<Rightarrow> None | e # _ \<Rightarrow> Some e);
          upc = drop 1 future;
          pst = filter (\<lambda>e. date_le (ev_end e) now) events
      in \<lparr>current = cur, nxt = next, upcoming = upc, past = pst\<rparr>)"

text \<open>
  The module state of popup.js that the clamp reads and writes: the global \<open>events\<close>
  array and the global \<open>completedIds\<close> set. \<open>Set.prototype.has\<close> compares with
  SameValueZero, which is equality on the strings the provider assigns as ids.
\<close>

record popup_state =
  events :: "event list"
  completedIds :: "jsval set"
  classified :: classification

text \<open>The body of the \<open>forEach\<close> callback of \<open>applyCompletedIds\<close>, for one event.\<close>

definition clampEvent :: "jsval set \<Rightarrow> date \<Rightarrow> event \<Rightarrow> event" where
  "clampEvent ids now e =
     (if ev_id e \<in> ids \<and> date_gt (ev_end e) now
      then e\<lparr>ev_manuallyCompleted := True,
              ev_end := newDate_number (Math_min (getTime (ev_end e)) (getTime now))\<rparr>
      else e)"

text \<open>\<open>applyCompletedIds\<close>; \<open>now\<close> is the clock value \<open>new Date()\<close> read at its entry.\<close>

definition applyCompletedIds :: "date \<Rightarrow> popup_state \<Rightarrow> popup_state" where
  "applyCompletedIds now s = s\<lparr>events := map (clampEvent (completedIds s) now) (events s)\<rparr>"

definition eventProgress :: "(rat \<Rightarrow> rat) \<Rightarrow> event \<Rightarrow> date \<Rightarrow> number" where
  "eventProgress fl event now =
     (let total = js_sub fl (getTime (ev_end event)) (getTime (ev_start event));
          elapsed = js_sub fl (getTime now) (getTime (ev_start event))
      in Math_min (Fin 100) (Math_max (Fin 0) (js_mul fl (js_div fl elapsed total) (Fin 100))))"

text \<open>
  What the proofs about \<open>eventProgress\<close> use of the rounding of doubles: it is monotone,
  and 0, 1, -1 and 100 are doubles, so rounding leaves them as they are.
\<close>

definition rounding :: "(rat \<Rightarrow> rat) \<Rightarrow> bool" where
  "rounding fl =
     ((\<forall>x y. x \<le> y \<longrightarrow> fl x \<le> fl y) \<and> fl 0 = 0 \<and> fl 1 = 1 \<and> fl (- 1) = - 1 \<and> fl 100 = 100)"

text \<open>
  \<open>renderDrawer\<close> lists the four buckets as
  \<open>[...past, ...(current ? [current] : []), ...(next ? [next] : []), ...upcoming]\<close>.
\<close>

fun option_list :: "'a option \<Rightarrow> 'a list" where
  "option_list None = []"
| "option_list (Some x) = [x]"

definition allBuckets :: "classification \<Rightarrow> event list" where
  "allBuckets c = past c @ option_list (current c) @ option_list (nxt c) @ upcoming c"

text \<open>The predicate of the \<open>find\<close> in \<open>classifyEvents\<close>, and the provider's ordering.\<close>

definition spansNow :: "date \<Rightarrow> event \<Rightarrow> bool" where
  "spansNow now e = (date_le (ev_start e) now \<and> date_gt (ev_end e) now)"

definition sortedByStart :: "event list \<Rightarrow> bool" where
  "sortedByStart es = sorted_wrt (\<lambda>a b. date_le (ev_start a) (ev_start b)) es"

text \<open>The hypothesis of the spec's data model: every event has \<open>start < end\<close>.\<close>

definition startBeforeEnd :: "event list \<Rightarrow> bool" where
  "startBeforeEnd es = list_all (\<lambda>e. date_lt (ev_start e) (ev_end e)) es"

section \<open>Exceptions and property access\<close>

text \<open>
  What a \<open>throw\<close> or a rejected promise carries: an \<open>Error\<close> object the program builds
  with its message, a string the program rejects with, or an error the host raises
  (a \<open>TypeError\<close> for a property read on \<open>undefined\<close> or \<open>null\<close> and for a call of a
  non-function, the \<open>TypeError\<close> of a failed \<open>fetch\<close>, the \<open>SyntaxError\<close> of
  \<open>res.json()\<close>). The messages of the host's errors are the host's own; none of them is
  the text \<open>UNAUTHORIZED\<close>.
\<close>

datatype exn =
    ErrorObj string
  | ThrownString string
  | HostTypeError
  | HostNetworkError
  | HostSyntaxError

definition bindE :: "exn + 'a \<Rightarrow> ('a \<Rightarrow> exn + 'b) \<Rightarrow> exn + 'b" where
  "bindE m f = (case m of Inl e \<Rightarrow> Inl e | Inr v \<Rightarrow> f v)"

fun truthy :: "jsval \<Rightarrow> bool" where
  "truthy JUndefined = False"
| "truthy JNull = False"
| "truthy (JBool b) = b"
| "truthy (JNum n) = (n \<noteq> 0)"
| "truthy (JStr s) = (s \<noteq> [])"
| "truthy (JArr _) = True"
| "truthy (JObj _) = True"

text \<open>
  \<open>v.k\<close> for the keys the program reads (\<open>start\<close>, \<open>end\<close>, \<open>dateTime\<close>, \<open>id\<close>, \<open>summary\<close>,
  \<open>items\<close>): none of them is a property of a string, number, boolean or array, or of
  \<open>Object.prototype\<close>. An object lists each of its keys once.
\<close>

definition field :: "(string \<times> jsval) list \<Rightarrow> string \<Rightarrow> jsval" where
  "field fs k = (case map_of fs k of None \<Rightarrow> JUndefined | Some v \<Rightarrow> v)"

fun getProp :: "jsval \<Rightarrow> string \<Rightarrow> exn + jsval" where
  "getProp JUndefined k = Inl HostTypeError"
| "getProp JNull k = Inl HostTypeError"
| "getProp (JObj fs) k = Inr (field fs k)"
| "getProp _ k = Inr JUndefined"

text \<open>\<open>v?.k\<close>: \<open>undefined\<close> when \<open>v\<close> is \<open>undefined\<close> or \<open>null\<close>, and \<open>v.k\<close> otherwise.\<close>

fun optProp :: "jsval \<Rightarrow> string \<Rightarrow> jsval" where
  "optProp (JObj fs) k = field fs k"
| "optProp _ k = JUndefined"

section \<open>Decimal strings, \<open>padStart\<close> and \<open>new Date(value)\<close>\<close>

fun show_nat :: "nat \<Rightarrow> string" where
  "show_nat n =
     (if n < 10 then [''0123456789'' ! n]
      else show_nat (n div 10) @ [''0123456789'' ! (n mod 10)])"

definition show_int :: "int \<Rightarrow> string" where
  "show_int n = (if n < 0 then ''-'' @ show_nat (nat (- n)) else show_nat (nat n))"

definition padStart :: "nat \<Rightarrow> string \<Rightarrow> string \<Rightarrow> string" where
  "padStart n p s =
     (if n \<le> length s \<or> p = [] then s
      else take (n - length s) (concat (replicate (n - length s) p)) @ s)"

fun joinWith :: "string \<Rightarrow> string list \<Rightarrow> string" where
  "joinWith sep [] = []"
| "joinWith sep [x] = x"
| "joinWith sep (x # y # ys) = x @ sep @ joinWith sep (y # ys)"

text \<open>
  The conversion of a value to a string inside \<open>new Date\<close> and inside \<open>join\<close>. A string
  is itself. An array is the \<open>join\<close> of its elements, converted from left to right
  (\<open>undefined\<close> and \<open>null\<close> elements as the empty string). A plain object is
  \<open>[object Object]\<close> through \<open>Object.prototype.toString\<close>, unless it has a key \<open>toString\<close>
  of its own: a JSON value is not callable and \<open>valueOf\<close> never yields a primitive for an
  object, so the conversion then throws a \<open>TypeError\<close>.
\<close>

fun js_toString :: "jsval \<Rightarrow> exn + string"
  and js_elementStrings :: "jsval list \<Rightarrow> exn + string list" where
  "js_toString JUndefined = Inr ''undefined''"
| "js_toString JNull = Inr ''null''"
| "js_toString (JBool b) = Inr (if b then ''true'' else ''false'')"
| "js_toString (JNum n) = Inr (show_int n)"
| "js_toString (JStr s) = Inr s"
| "js_toString (JArr xs) = bindE (js_elementStrings xs) (\<lambda>ss. Inr (joinWith '','' ss))"
| "js_toString (JObj fs) =
     (if map_of fs ''toString'' \<noteq> None then Inl HostTypeError else Inr ''[object Object]'')"
| "js_elementStrings [] = Inr []"
| "js_elementStrings (x # xs) =
     bindE (if x = JUndefined \<or> x = JNull then Inr [] else js_toString x) (\<lambda>s.
     bindE (js_elementStrings xs) (\<lambda>ss. Inr (s # ss)))"

text \<open>
  \<open>Date.parse\<close> is the parameter \<open>parse\<close>, the host's function, with \<open>None\<close> for \<open>NaN\<close>:
  the language fixes it on the ISO format only.
\<close>

definition dateOfString :: "(string \<Rightarrow> int option) \<Rightarrow> string \<Rightarrow> date" where
  "dateOfString parse s =
     (case parse s of None \<Rightarrow> InvalidDate | Some t \<Rightarrow> newDate_number (Fin (of_int t)))"

text \<open>
  \<open>new Date(v)\<close>: \<open>undefined\<close>, \<open>null\<close>, a boolean and a number are taken as numbers; a
  string is parsed; an array or an object is converted to a string first, which can
  throw.
\<close>

fun newDate :: "(string \<Rightarrow> int option) \<Rightarrow> jsval \<Rightarrow> exn + date" where
  "newDate parse JUndefined = Inr InvalidDate"
| "newDate parse JNull = Inr (Date 0)"
| "newDate parse (JBool b) = Inr (Date (if b then 1 else 0))"
| "newDate parse (JNum n) = Inr (newDate_number (Fin (of_int n)))"
| "newDate parse v = bindE (js_toString v) (\<lambda>s. Inr (dateOfString parse s))"

text \<open>The values that are not objects: \<open>new Date\<close> of them cannot throw.\<close>

fun isPrimitive :: "jsval \<Rightarrow> bool" where
  "isPrimitive (JArr _) = False"
| "isPrimitive (JObj _) = False"
| "isPrimitive _ = True"

section \<open>The normalizer and the calendar fetch (popup.js)\<close>

text \<open>
  \<open>normalizeEvent\<close> of popup.js. The copy in the module variant (calendar.js) reads the
  same four fields in the same way and adds \<open>color\<close>, \<open>description\<close> and \<open>location\<close>,
  each with a default.
\<close>

definition normalizeEvent :: "(string \<Rightarrow> int option) \<Rightarrow> jsval \<Rightarrow> exn + event option" where
  "normalizeEvent parse raw =
     bindE (getProp raw ''start'') (\<lambda>st.
     bindE (getProp raw ''end'') (\<lambda>en.
       let startDT = optProp st ''dateTime'';
           endDT = optProp en ''dateTime''
       in if \<not> truthy startDT \<or> \<not> truthy endDT then Inr None
          else bindE (getProp raw ''id'') (\<lambda>i.
               bindE (getProp raw ''summary'') (\<lambda>summary.
               bindE (newDate parse startDT) (\<lambda>s.
               bindE (newDate parse endDT) (\<lambda>e.
                 Inr (Some \<lparr>ev_id = i,
                            ev_title = (if truthy summary then summary else JStr ''(no title)''),
                            ev_start = s,
                            ev_end = e,
                            ev_manuallyCompleted = False\<rparr>)))))))"

fun mapE :: "('a \<Rightarrow> exn + 'b) \<Rightarrow> 'a list \<Rightarrow> exn + 'b list" where
  "mapE f [] = Inr []"
| "mapE f (x # xs) = bindE (f x) (\<lambda>y. bindE (mapE f xs) (\<lambda>ys. Inr (y # ys)))"

text \<open>
  What \<open>fetch\<close> yields: a rejection, or a response with its status and its body, which
  \<open>res.json()\<close> parses or rejects. \<open>res.ok\<close> is a status in 200..299.
\<close>

datatype body = BadJson | Json jsval

datatype response = NetworkFailure | Response nat body

definition res_ok :: "nat \<Rightarrow> bool" where
  "res_ok status = (200 \<le> status \<and> status \<le> 299)"

text \<open>The part of \<open>fetchTodayEvents\<close> after the \<open>await fetch(...)\<close>.\<close>

definition eventsOfResponse :: "(string \<Rightarrow> int option) \<Rightarrow> response \<Rightarrow> exn + event list" where
  "eventsOfResponse parse res =
     (case res of
        NetworkFailure \<Rightarrow> Inl HostNetworkError
      | Response status b \<Rightarrow>
          if status = 401 then Inl (ErrorObj ''UNAUTHORIZED'')
          else if \<not> res_ok status then Inl (ErrorObj (''Calendar API error: '' @ show_nat status))
          else (case b of
                  BadJson \<Rightarrow> Inl HostSyntaxError
                | Json data \<Rightarrow>
                    bindE (getProp data ''items'') (\<lambda>items.
                      case (if truthy items then items else JArr []) of
                        JArr xs \<Rightarrow>
                          bindE (mapE (normalizeEvent parse) xs) (\<lambda>ys. Inr (List.map_filter (\<lambda>y. y) ys))
                      | _ \<Rightarrow> Inl HostTypeError)))"

section \<open>Token handling and \<open>loadAndRender\<close> (popup.js)\<close>

text \<open>
  The outside world of the popup: the \<open>n\<close>-th call of \<open>fetch\<close> with its bearer token
  yields a response, and the \<open>n\<close>-th call of \<open>chrome.identity.getAuthToken\<close> passes its
  callback a token (or \<open>undefined\<close>) while \<open>chrome.runtime.lastError\<close> is unset or carries
  a message. Every call is appended to a trace, which is the state threaded through the
  asynchronous functions.
\<close>

datatype call = CallFetch string | CallGetAuthToken bool | CallRemoveCachedAuthToken string

record env =
  fetch_impl :: "nat \<Rightarrow> string \<Rightarrow> response"
  identity_impl :: "nat \<Rightarrow> bool \<Rightarrow> string option \<times> string option"

fun isFetch :: "call \<Rightarrow> bool" where
  "isFetch (CallFetch _) = True"
| "isFetch _ = False"

fun isGetAuthToken :: "call \<Rightarrow> bool" where
  "isGetAuthToken (CallGetAuthToken _) = True"
| "isGetAuthToken _ = False"

fun isRemoveCachedAuthToken :: "call \<Rightarrow> bool" where
  "isRemoveCachedAuthToken (CallRemoveCachedAuthToken _) = True"
| "isRemoveCachedAuthToken _ = False"

definition fetchTodayEvents ::
    "env \<Rightarrow> (string \<Rightarrow> int option) \<Rightarrow> string \<Rightarrow> call list \<Rightarrow> (exn + event list) \<times> call list" where
  "fetchTodayEvents E parse token trace =
     (let res = fetch_impl E (length (filter isFetch trace)) token
      in (eventsOfResponse parse res, trace @ [CallFetch token]))"

definition tokenTruthy :: "string option \<Rightarrow> bool" where
  "tokenTruthy tok = (case tok of None \<Rightarrow> False | Some s \<Rightarrow> s \<noteq> [])"

definition getAuthToken :: "env \<Rightarrow> bool \<Rightarrow> call list \<Rightarrow> (exn + string) \<times> call list" where
  "getAuthToken E interactive trace =
     (let (lastError, token) = identity_impl E (length (filter isGetAuthToken trace)) interactive;
          trace' = trace @ [CallGetAuthToken interactive]
      in if lastError \<noteq> None \<or> \<not> tokenTruthy token
         then (Inl (ThrownString (case lastError of
                                    None \<Rightarrow> ''Auth failed''
                                  | Some m \<Rightarrow> if m = [] then ''Auth failed'' else m)), trace')
         else (Inr (the token), trace'))"

definition refreshToken :: "env \<Rightarrow> call list \<Rightarrow> call list" where
  "refreshToken E trace =
     (let (lastError, token) = identity_impl E (length (filter isGetAuthToken trace)) False;
          trace' = trace @ [CallGetAuthToken False]
      in if tokenTruthy token then trace' @ [CallRemoveCachedAuthToken (the token)] else trace')"

text \<open>\<open>err.message === 'UNAUTHORIZED'\<close>: a thrown string has no \<open>message\<close>.\<close>

fun messageIsUnauthorized :: "exn \<Rightarrow> bool" where
  "messageIsUnauthorized (ErrorObj m) = (m = ''UNAUTHORIZED'')"
| "messageIsUnauthorized _ = False"

text \<open>
  \<open>loadCompletedIds\<close> builds \<open>new Set(result[key] || [])\<close> from what the store holds under
  today's key; \<open>render\<close> is kept as its assignment to \<open>classified\<close>.
\<close>

definition loadCompletedIds :: "jsval list option \<Rightarrow> jsval set" where
  "loadCompletedIds stored = set (case stored of None \<Rightarrow> [] | Some xs \<Rightarrow> xs)"

definition render :: "date \<Rightarrow> popup_state \<Rightarrow> popup_state" where
  "render now s = s\<lparr>classified := classifyEvents (events s) now\<rparr>"

text \<open>
  \<open>loadAndRender(token)\<close> up to the first \<open>render()\<close>: \<open>stored\<close> is the store's array of
  completed ids, \<open>nowA\<close> and \<open>nowR\<close> are the clock readings of \<open>applyCompletedIds\<close> and
  of \<open>render\<close>.
\<close>

definition afterFetch ::
    "jsval list option \<Rightarrow> date \<Rightarrow> date \<Rightarrow> popup_state \<Rightarrow> event list \<Rightarrow> popup_state" where
  "afterFetch stored nowA nowR s evs =
     render nowR (applyCompletedIds nowA (s\<lparr>events := evs, completedIds := loadCompletedIds stored\<rparr>))"

definition loadAndRender ::
    "env \<Rightarrow> (string \<Rightarrow> int option) \<Rightarrow> jsval list option \<Rightarrow> date \<Rightarrow> date \<Rightarrow> string \<Rightarrow>
     popup_state \<times> call list \<Rightarrow> (exn + popup_state) \<times> call list" where
  "loadAndRender E parse stored nowA nowR token sl =
     (let (s, trace) = sl;
          (r1, trace1) = fetchTodayEvents E parse token trace
      in case r1 of
           Inr evs \<Rightarrow> (Inr (afterFetch stored nowA nowR s evs), trace1)
         | Inl err \<Rightarrow>
             if messageIsUnauthorized err then
               (let trace2 = refreshToken E trace1;
                    (t, trace3) = getAuthToken E False trace2
                in case t of
                     Inl e \<Rightarrow> (Inl e, trace3)
                   | Inr newToken \<Rightarrow>
                       (let (r2, trace4) = fetchTodayEvents E parse newToken trace3
                        in case r2 of
                             Inl e \<Rightarrow> (Inl e, trace4)
                           | Inr evs \<Rightarrow> (Inr (afterFetch stored nowA nowR s evs), trace4)))
             else (Inl err, trace1))"

section \<open>The background selection (background.js)\<close>

text \<open>
  \<open>fetchEvents\<close> keeps the raw items with a truthy \<open>start?.dateTime\<close>; \<open>updateBadge\<close>
  then picks \<open>current\<close> and \<open>next\<close> with two \<open>find\<close> calls over the raw items. The
  predicates read \<open>e.end.dateTime\<close> without optional chaining, so they can throw, and
  \<open>&&\<close> evaluates its right operand only when the left one holds.
\<close>

fun filterE :: "('a \<Rightarrow> exn + bool) \<Rightarrow> 'a list \<Rightarrow> exn + 'a list" where
  "filterE p [] = Inr []"
| "filterE p (x # xs) =
     bindE (p x) (\<lambda>b. bindE (filterE p xs) (\<lambda>ys. Inr (if b then x # ys else ys)))"

fun findE :: "('a \<Rightarrow> exn + bool) \<Rightarrow> 'a list \<Rightarrow> exn + 'a option" where
  "findE p [] = Inr None"
| "findE p (x # xs) = bindE (p x) (\<lambda>b. if b then Inr (Some x) else findE p xs)"

definition hasStartDateTime :: "jsval \<Rightarrow> exn + bool" where
  "hasStartDateTime e = bindE (getProp e ''start'') (\<lambda>st. Inr (truthy (optProp st ''dateTime'')))"

definition fetchEvents :: "response \<Rightarrow> exn + jsval list" where
  "fetchEvents res =
     (case res of
        NetworkFailure \<Rightarrow> Inl HostNetworkError
      | Response status b \<Rightarrow>
          if \<not> res_ok status then Inr []
          else (case b of
                  BadJson \<Rightarrow> Inl HostSyntaxError
                | Json data \<Rightarrow>
                    bindE (getProp data ''items'') (\<lambda>items.
                      case (if truthy items then items else JArr []) of
                        JArr xs \<Rightarrow> filterE hasStartDateTime xs
                      | _ \<Rightarrow> Inl HostTypeError)))"

definition isCurrentRaw :: "(string \<Rightarrow> int option) \<Rightarrow> date \<Rightarrow> jsval \<Rightarrow> exn + bool" where
  "isCurrentRaw parse now e =
     bindE (getProp e ''start'') (\<lambda>st.
     bindE (getProp st ''dateTime'') (\<lambda>startDT.
     bindE (newDate parse startDT) (\<lambda>s.
       if date_le s now
       then bindE (getProp e ''end'') (\<lambda>en.
            bindE (getProp en ''dateTime'') (\<lambda>endDT.
            bindE (newDate parse endDT) (\<lambda>d. Inr (date_gt d now))))
       else Inr False)))"

definition isNextRaw :: "(string \<Rightarrow> int option) \<Rightarrow> date \<Rightarrow> jsval \<Rightarrow> exn + bool" where
  "isNextRaw parse now e =
     bindE (getProp e ''start'') (\<lambda>st.
     bindE (getProp st ''dateTime'') (\<lambda>startDT.
     bindE (newDate parse startDT) (\<lambda>s. Inr (date_gt s now))))"

definition selectCurrentNext ::
    "(string \<Rightarrow> int option) \<Rightarrow> date \<Rightarrow> jsval list \<Rightarrow> exn + (jsval option \<times> jsval option)" where
  "selectCurrentNext parse now evs =
     bindE (findE (isCurrentRaw parse now) evs) (\<lambda>cur.
     bindE (findE (isNextRaw parse now) evs) (\<lambda>next. Inr (cur, next)))"

text \<open>
  A raw item and the event the popup holds for it: the two contexts work on identical
  event lists when the popup's list is the normalisation of the background's, item by
  item.
\<close>

definition normalizesTo :: "(string \<Rightarrow> int option) \<Rightarrow> jsval \<Rightarrow> event \<Rightarrow> bool" where
  "normalizesTo parse raw e = (normalizeEvent parse raw = Inr (Some e))"

section \<open>The streak (popup.js)\<close>

text \<open>
  What the getters of a \<open>Date\<close> return in local time: the year, the month counted from
  0, and the day of the month.
\<close>

record localDate =
  getFullYear :: nat
  getMonth :: nat
  getDate :: nat

definition todayKey :: "localDate \<Rightarrow> string" where
  "todayKey d =
     show_nat (getFullYear d) @ ''-'' @ padStart 2 ''0'' (show_nat (getMonth d + 1)) @ ''-'' @
     padStart 2 ''0'' (show_nat (getDate d))"

definition leapYear :: "nat \<Rightarrow> bool" where
  "leapYear y = (y mod 4 = 0 \<and> (y mod 100 \<noteq> 0 \<or> y mod 400 = 0))"

definition daysInMonth :: "nat \<Rightarrow> nat \<Rightarrow> nat" where
  "daysInMonth y m =
     (if m = 1 then (if leapYear y then 29 else 28)
      else if m = 3 \<or> m = 5 \<or> m = 8 \<or> m = 10 then 30 else 31)"

text \<open>The local dates of the model: a day of the calendar, in a year from 1 on.\<close>

definition validLocalDate :: "localDate \<Rightarrow> bool" where
  "validLocalDate d =
     (1 \<le> getFullYear d \<and> getMonth d < 12 \<and> 1 \<le> getDate d \<and>
      getDate d \<le> daysInMonth (getFullYear d) (getMonth d))"

text \<open>
  \<open>yesterday.setDate(yesterday.getDate() - 1)\<close>: the calendar day before, which wraps
  into the previous month and the previous year.
\<close>

definition setDatePrevious :: "localDate \<Rightarrow> localDate" where
  "setDatePrevious d =
     (if 1 < getDate d then d\<lparr>getDate := getDate d - 1\<rparr>
      else if 0 < getMonth d
        then d\<lparr>getMonth := getMonth d - 1,
                getDate := daysInMonth (getFullYear d) (getMonth d - 1)\<rparr>
        else \<lparr>getFullYear = getFullYear d - 1, getMonth = 11, getDate = 31\<rparr>)"

text \<open>
  The two keys of \<open>chrome.storage.local\<close> the streak uses. \<open>updateStreak\<close> reads the
  clock three times (twice for \<open>todayKey()\<close>, once for \<open>yesterday\<close>); the model takes one
  reading \<open>today\<close> for the three, that is, midnight does not pass during the call.
\<close>

record storage =
  st_streak :: "int option"
  st_streakLastDate :: "string option"

text \<open>\<open>result.streak || 1\<close>: the stored count, and 1 when it is absent or 0.\<close>

definition storedCount :: "storage \<Rightarrow> int" where
  "storedCount st = (case st_streak st of None \<Rightarrow> 1 | Some n \<Rightarrow> if n = 0 then 1 else n)"

definition getStreak :: "localDate \<Rightarrow> storage \<Rightarrow> int \<times> string" where
  "getStreak today st =
     (storedCount st,
      (case st_streakLastDate st of None \<Rightarrow> todayKey today
       | Some s \<Rightarrow> if s = [] then todayKey today else s))"

definition updateStreak :: "localDate \<Rightarrow> storage \<Rightarrow> int \<times> storage" where
  "updateStreak today st =
     (let (streak, lastDate) = getStreak today st
      in if lastDate = todayKey today then (streak, st)
         else (let yKey = todayKey (setDatePrevious today);
                   newStreak = (if lastDate = yKey then streak + 1 else 1)
               in (newStreak, st\<lparr>st_streak := Some newStreak,
                                 st_streakLastDate := Some (todayKey today)\<rparr>)))"

section \<open>Example data\<close>

text \<open>
  The day of the spec's example, in milliseconds after midnight: three events
  09:00--09:30, 09:30--10:15 and 11:00--11:30, and the clock at 09:45.
\<close>

definition mkEvent :: "string \<Rightarrow> int \<Rightarrow> int \<Rightarrow> event" where
  "mkEvent i s e =
     \<lparr>ev_id = JStr i, ev_title = JStr ''(no title)'', ev_start = Date s, ev_end = Date e,
      ev_manuallyCompleted = False\<rparr>"

definition exampleEvents :: "event list" where
  "exampleEvents =
     [mkEvent ''a'' 32400000 34200000, mkEvent ''b'' 34200000 36900000,
      mkEvent ''c'' 39600000 41400000]"

definition exampleNow :: date where
  "exampleNow = Date 35100000"

definition emptyClassification :: classification where
  "emptyClassification = \<lparr>current = None, nxt = None, upcoming = [], past = []\<rparr>"

definition exampleState :: popup_state where
  "exampleState =
     \<lparr>events = exampleEvents, completedIds = {JStr ''b''}, classified = emptyClassification\<rparr>"

text \<open>Two events that both contain 09:45: 09:00--10:00 and 09:30--10:15.\<close>

definition overlappingEvents :: "event list" where
  "overlappingEvents = [mkEvent ''a'' 32400000 36000000, mkEvent ''b'' 34200000 36900000]"

text \<open>
  The values of the host's \<open>Date.parse\<close> on the three ISO time stamps the examples use
  (09:00, 10:00 and 11:00 UTC on 2024-01-01); any other text, such as \<open>not a date\<close>, is
  \<open>NaN\<close>.
\<close>

definition exampleParse :: "string \<Rightarrow> int option" where
  "exampleParse s =
     (if s = ''2024-01-01T09:00:00Z'' then Some 1704099600000
      else if s = ''2024-01-01T10:00:00Z'' then Some 1704103200000
      else if s = ''2024-01-01T11:00:00Z'' then Some 1704106800000
      else None)"

definition rawEvent :: "string \<Rightarrow> string \<Rightarrow> string \<Rightarrow> jsval" where
  "rawEvent i s e =
     JObj [(''id'', JStr i), (''start'', JObj [(''dateTime'', JStr s)]),
           (''end'', JObj [(''dateTime'', JStr e)])]"

text \<open>A timed event 09:00--10:00 and one 10:00--11:00, both without a summary.\<close>

definition rawMorning :: jsval where
  "rawMorning = rawEvent ''m1'' ''2024-01-01T09:00:00Z'' ''2024-01-01T10:00:00Z''"

definition rawLater :: jsval where
  "rawLater = rawEvent ''m2'' ''2024-01-01T10:00:00Z'' ''2024-01-01T11:00:00Z''"

text \<open>The events the normalizer builds for the two, and the clock at 09:30.\<close>

definition evMorning :: event where
  "evMorning =
     \<lparr>ev_id = JStr ''m1'', ev_title = JStr ''(no title)'', ev_start = Date 1704099600000,
      ev_end = Date 1704103200000, ev_manuallyCompleted = False\<rparr>"

definition evLater :: event where
  "evLater =
     \<lparr>ev_id = JStr ''m2'', ev_title = JStr ''(no title)'', ev_start = Date 1704103200000,
      ev_end = Date 1704106800000, ev_manuallyCompleted = False\<rparr>"

definition halfPastNine :: date where
  "halfPastNine = Date 1704101400000"

text \<open>An event that starts and ends at 09:00, as calendars allow.\<close>

definition rawZeroLength :: jsval where
  "rawZeroLength = rawEvent ''z'' ''2024-01-01T09:00:00Z'' ''2024-01-01T09:00:00Z''"

text \<open>An event whose two time stamps are present and are not dates.\<close>

definition rawUnparseable :: jsval where
  "rawUnparseable = rawEvent ''u'' ''not a date'' ''not a date''"

text \<open>
  An event whose \<open>start.dateTime\<close> is the JSON object \<open>{"toString": 1}\<close>: truthy, and not
  convertible to a primitive.
\<close>

definition rawUnconvertible :: jsval where
  "rawUnconvertible =
     JObj [(''id'', JStr ''t''), (''start'', JObj [(''dateTime'', JObj [(''toString'', JNum 1)])]),
           (''end'', JObj [(''dateTime'', JStr ''2024-01-01T10:00:00Z'')])]"

text \<open>An all-day event: \<open>date\<close> in place of \<open>dateTime\<close>.\<close>

definition rawAllDay :: jsval where
  "rawAllDay =
     JObj [(''id'', JStr ''d''), (''summary'', JStr ''Holiday''),
           (''start'', JObj [(''date'', JStr ''2024-01-01'')]),
           (''end'', JObj [(''date'', JStr ''2024-01-02'')])]"

text \<open>
  A world in which every \<open>fetch\<close> is answered with status 401 and every silent token
  request yields a token.
\<close>

definition alwaysUnauthorized :: env where
  "alwaysUnauthorized =
     \<lparr>fetch_impl = (\<lambda>n token. Response 401 BadJson),
      identity_impl = (\<lambda>n interactive. (None, Some ''fresh''))\<rparr>"

text \<open>A fresh install on 10 March 2024, and the day after.\<close>

definition emptyStorage :: storage where
  "emptyStorage = \<lparr>st_streak = None, st_streakLastDate = None\<rparr>"

definition tenthOfMarch :: localDate where
  "tenthOfMarch = \<lparr>getFullYear = 2024, getMonth = 2, getDate = 10\<rparr>"

definition eleventhOfMarch :: localDate where
  "eleventhOfMarch = \<lparr>getFullYear = 2024, getMonth = 2, getDate = 11\<rparr>"

section \<open>Basic facts about dates\<close>

lemma date_le_Date [simp]: "date_le (Date a) (Date b) = (a \<le> b)"
  by (simp add: date_le_def js_le_def not_less)

lemma date_lt_Date [simp]: "date_lt (Date a) (Date b) = (a < b)"
  by (simp add: date_lt_def)

lemma date_gt_Date [simp]: "date_gt (Date a) (Date b) = (b < a)"
  by (simp add: date_gt_def js_gt_def)

lemma date_cmp_Invalid [simp]:
  "\<not> date_le InvalidDate b" "\<not> date_le a InvalidDate"
  "\<not> date_lt InvalidDate b" "\<not> date_lt a InvalidDate"
  "\<not> date_gt InvalidDate b" "\<not> date_gt a InvalidDate"
  by (cases a; cases b; simp add: date_le_def date_lt_def date_gt_def js_le_def js_gt_def)+

section \<open>The override clamp: idempotence, monotonicity and frame\<close>

lemma newDate_number_of_int:
  "newDate_number (Fin (of_int n)) = (if \<bar>n\<bar> \<le> maxTime then Date n else InvalidDate)"
proof -
  have "(\<bar>rat_of_int n\<bar> > of_int maxTime) = (\<bar>n\<bar> > maxTime)"
    by (simp only: of_int_abs [symmetric] of_int_less_iff)
  then show ?thesis by auto
qed

lemma clamp_end:
  assumes "date_gt (ev_end e) now"
  shows "newDate_number (Math_min (getTime (ev_end e)) (getTime now)) =
           (if inRange now then now else InvalidDate)"
proof -
  from assms obtain a n where an: "ev_end e = Date a" "now = Date n" "n < a"
    by (cases "ev_end e"; cases now; simp)
  then show ?thesis by (simp add: newDate_number_of_int del: newDate_number.simps)
qed

lemma date_gt_irrefl [simp]: "\<not> date_gt d d"
  by (cases d) simp_all

lemma clampEvent_idem: "clampEvent ids now (clampEvent ids now e) = clampEvent ids now e"
proof (cases "ev_id e \<in> ids \<and> date_gt (ev_end e) now")
  case True
  then have "\<not> date_gt (ev_end (clampEvent ids now e)) now"
    by (simp add: clampEvent_def clamp_end)
  then show ?thesis by (simp add: clampEvent_def)
next
  case False
  then show ?thesis by (auto simp add: clampEvent_def)
qed

text \<open>
  Claim C2. Running the override clamp a second time, on the events the first run
  left, with the same set of completed ids and the same \<open>now\<close>, changes nothing: the
  state after two runs is the state after one.
\<close>

theorem applyCompletedIds_idempotent:
  "applyCompletedIds now (applyCompletedIds now s) = applyCompletedIds now s"
  by (simp add: applyCompletedIds_def clampEvent_idem)

lemma clampEvent_end_le:
  assumes "inRange now"
  shows "date_le (ev_end (clampEvent ids now e)) (ev_end e) \<or> ev_end (clampEvent ids now e) = ev_end e"
proof (cases "ev_id e \<in> ids \<and> date_gt (ev_end e) now")
  case True
  then have "ev_end (clampEvent ids now e) = now"
    using assms by (simp add: clampEvent_def clamp_end)
  moreover from True have "date_le now (ev_end e)"
    by (cases "ev_end e"; cases now; simp)
  ultimately show ?thesis by simp
next
  case False
  then show ?thesis by (auto simp add: clampEvent_def)
qed

lemma clampEvent_past: "date_le (ev_end e) now \<Longrightarrow> clampEvent ids now e = e"
  by (cases "ev_end e"; cases now) (simp_all add: clampEvent_def)

lemma past_classify: "past (classifyEvents es now) = filter (\<lambda>e. date_le (ev_end e) now) es"
  by (simp add: classifyEvents_def Let_def)

text \<open>
  Claim C3. For the event at any position \<open>i\<close> of the list and any clock value a
  \<open>Date\<close> can hold, the clamp leaves the list as long as it was, the event's end after
  the clamp is less than or equal to its end before (or is the same Invalid Date it was),
  and an event whose end was already \<open><= now\<close> is unchanged in every field and is in
  the \<open>past\<close> bucket of the classification that follows, whether or not its id is in
  the set.
\<close>

theorem clamp_monotone:
  assumes "inRange now" and "i < length (events s)"
  shows "let e = events s ! i; s' = applyCompletedIds now s; e' = events s' ! i in
           length (events s') = length (events s) \<and>
           (date_le (ev_end e') (ev_end e) \<or> ev_end e' = ev_end e) \<and>
           (date_le (ev_end e) now \<longrightarrow>
              e' = e \<and> e' \<in> set (past (classifyEvents (events s') now)))"
proof -
  let ?e = "events s ! i"
  let ?s' = "applyCompletedIds now s"
  have len: "length (events ?s') = length (events s)"
    by (simp add: applyCompletedIds_def)
  have nth: "events ?s' ! i = clampEvent (completedIds s) now ?e"
    using assms(2) by (simp add: applyCompletedIds_def)
  have le: "date_le (ev_end (events ?s' ! i)) (ev_end ?e) \<or> ev_end (events ?s' ! i) = ev_end ?e"
    unfolding nth by (rule clampEvent_end_le [OF assms(1)])
  have pst: "events ?s' ! i = ?e \<and> events ?s' ! i \<in> set (past (classifyEvents (events ?s') now))"
    if h: "date_le (ev_end ?e) now"
  proof -
    have eq: "events ?s' ! i = ?e" unfolding nth using h by (rule clampEvent_past)
    have "events ?s' ! i \<in> set (events ?s')" using assms(2) len by simp
    with eq h show ?thesis by (simp add: past_classify)
  qed
  from len le pst show ?thesis unfolding Let_def by blast
qed

text \<open>
  Claim C10. The clamp changes neither the length of the list nor the set of completed
  ids; of the event at any position it keeps \<open>id\<close>, \<open>title\<close> and \<open>start\<close>, so that the
  event differs from the original in \<open>end\<close> and \<open>_manuallyCompleted\<close> at most; and an event
  whose id is not in the set, or whose end is not \<open>> now\<close>, is the same after as before.
\<close>

theorem clamp_frame:
  assumes "i < length (events s)"
  shows "let e = events s ! i; s' = applyCompletedIds now s; e' = events s' ! i in
           length (events s') = length (events s) \<and>
           completedIds s' = completedIds s \<and>
           ev_id e' = ev_id e \<and> ev_title e' = ev_title e \<and> ev_start e' = ev_start e \<and>
           e' = e\<lparr>ev_end := ev_end e', ev_manuallyCompleted := ev_manuallyCompleted e'\<rparr> \<and>
           (\<not> (ev_id e \<in> completedIds s \<and> date_gt (ev_end e) now) \<longrightarrow> e' = e)"
  using assms by (simp add: applyCompletedIds_def clampEvent_def Let_def)


text \<open>
  The spec's example: with the 09:30--10:15 event marked complete, the clamp at 09:45
  sets its end to 09:45 and leaves the other two events alone.
\<close>

lemma exampleState_events:
  "events (applyCompletedIds exampleNow exampleState) =
     [mkEvent ''a'' 32400000 34200000,
      (mkEvent ''b'' 34200000 36900000)\<lparr>ev_manuallyCompleted := True, ev_end := exampleNow\<rparr>,
      mkEvent ''c'' 39600000 41400000]"
  by (simp add: applyCompletedIds_def exampleState_def exampleEvents_def exampleNow_def
      clampEvent_def mkEvent_def maxTime_def)

text \<open>
  Claim C3 at the first event of the example, which ended at 09:30.
\<close>

theorem clamp_monotone_witness:
  "inRange exampleNow \<and> (0::nat) < length (events exampleState) \<and>
   date_le (ev_end (events exampleState ! 0)) exampleNow \<and>
   events (applyCompletedIds exampleNow exampleState) ! 0 = events exampleState ! 0 \<and>
   events (applyCompletedIds exampleNow exampleState) ! 0
     \<in> set (past (classifyEvents (events (applyCompletedIds exampleNow exampleState)) exampleNow))"
proof -
  have r: "inRange exampleNow" by (simp add: exampleNow_def maxTime_def)
  have i: "(0::nat) < length (events exampleState)"
    by (simp add: exampleState_def exampleEvents_def)
  have p: "date_le (ev_end (events exampleState ! 0)) exampleNow"
    by (simp add: exampleState_def exampleEvents_def exampleNow_def mkEvent_def)
  from clamp_monotone [OF r i] p r i show ?thesis unfolding Let_def by blast
qed

text \<open>
  Claim C10 at the third event of the example, whose id is not in the set.
\<close>

theorem clamp_frame_witness:
  "(2::nat) < length (events exampleState) \<and>
   \<not> (ev_id (events exampleState ! 2) \<in> completedIds exampleState \<and>
      date_gt (ev_end (events exampleState ! 2)) exampleNow) \<and>
   events (applyCompletedIds exampleNow exampleState) ! 2 = events exampleState ! 2"
proof -
  have i: "(2::nat) < length (events exampleState)"
    by (simp add: exampleState_def exampleEvents_def)
  have p: "\<not> (ev_id (events exampleState ! 2) \<in> completedIds exampleState \<and>
      date_gt (ev_end (events exampleState ! 2)) exampleNow)"
    by (simp add: exampleState_def exampleEvents_def exampleNow_def mkEvent_def)
  from clamp_frame [OF i, of exampleNow] p i show ?thesis unfolding Let_def by blast
qed

section \<open>The classifier\<close>

lemma find_as_filter: "find P xs = (case filter P xs of [] \<Rightarrow> None | x # _ \<Rightarrow> Some x)"
  by (induction xs) simp_all

lemma first_and_rest: "option_list (case ys of [] \<Rightarrow> None | y # _ \<Rightarrow> Some y) @ drop 1 ys = ys"
  by (cases ys) simp_all

lemma find_and_rest: "option_list (find P xs) @ drop 1 (filter P xs) = filter P xs"
  unfolding find_as_filter by (rule first_and_rest)

lemma mset_three_way:
  assumes "\<forall>x\<in>set xs. (P x \<and> \<not> Q x \<and> \<not> R x) \<or> (\<not> P x \<and> Q x \<and> \<not> R x) \<or> (\<not> P x \<and> \<not> Q x \<and> R x)"
  shows "mset (filter P xs) + mset (filter Q xs) + mset (filter R xs) = mset xs"
  using assms by (induction xs) auto

lemma trichotomy:
  assumes "date_lt (ev_start e) (ev_end e)" and "now \<noteq> InvalidDate"
  shows "(date_le (ev_end e) now \<and> \<not> spansNow now e \<and> \<not> date_gt (ev_start e) now) \<or>
         (\<not> date_le (ev_end e) now \<and> spansNow now e \<and> \<not> date_gt (ev_start e) now) \<or>
         (\<not> date_le (ev_end e) now \<and> \<not> spansNow now e \<and> date_gt (ev_start e) now)"
  using assms by (cases "ev_start e"; cases "ev_end e"; cases now) (auto simp: spansNow_def)

lemma allBuckets_classify:
  "mset (allBuckets (classifyEvents es now)) + mset (drop 1 (filter (spansNow now) es)) =
     mset (filter (\<lambda>e. date_le (ev_end e) now) es) + mset (filter (spansNow now) es) +
     mset (filter (\<lambda>e. date_gt (ev_start e) now) es)"
proof -
  have cur: "current (classifyEvents es now) = find (spansNow now) es"
    by (simp add: classifyEvents_def Let_def spansNow_def [abs_def])
  have "mset (option_list (find (spansNow now) es)) + mset (drop 1 (filter (spansNow now) es)) =
          mset (filter (spansNow now) es)"
    by (simp only: mset_append [symmetric] find_and_rest)
  moreover have "option_list (nxt (classifyEvents es now)) @ upcoming (classifyEvents es now) =
          filter (\<lambda>e. date_gt (ev_start e) now) es"
    unfolding classifyEvents_def Let_def classification.simps by (rule first_and_rest)
  then have "mset (option_list (nxt (classifyEvents es now))) + mset (upcoming (classifyEvents es now)) =
          mset (filter (\<lambda>e. date_gt (ev_start e) now) es)"
    by (simp only: mset_append [symmetric])
  moreover have "past (classifyEvents es now) = filter (\<lambda>e. date_le (ev_end e) now) es"
    by (simp add: classifyEvents_def Let_def)
  ultimately show ?thesis
    by (simp add: allBuckets_def cur ac_simps)
qed

text \<open>
  Claim C1, amended. For every list of events that each satisfy \<open>start < end\<close> and every
  valid \<open>now\<close>, the four buckets together with the events after the first that also
  contain \<open>now\<close> (\<open>start <= now < end\<close>) are exactly the input events, each as often as
  the input has it: an event is in at most one bucket, and in none only when an earlier
  event also contains \<open>now\<close>. \<open>current\<close> is non-null exactly when some event contains
  \<open>now\<close>. The order of the list plays no part.
\<close>

theorem classify_partition:
  assumes "startBeforeEnd es" and "now \<noteq> InvalidDate"
  shows "mset (allBuckets (classifyEvents es now)) + mset (drop 1 (filter (spansNow now) es)) = mset es \<and>
         (current (classifyEvents es now) \<noteq> None) = (\<exists>e\<in>set es. spansNow now e)"
proof
  have "\<forall>e\<in>set es. date_lt (ev_start e) (ev_end e)"
    using assms(1) by (simp add: startBeforeEnd_def list_all_iff)
  then have "\<forall>e\<in>set es.
         (date_le (ev_end e) now \<and> \<not> spansNow now e \<and> \<not> date_gt (ev_start e) now) \<or>
         (\<not> date_le (ev_end e) now \<and> spansNow now e \<and> \<not> date_gt (ev_start e) now) \<or>
         (\<not> date_le (ev_end e) now \<and> \<not> spansNow now e \<and> date_gt (ev_start e) now)"
    using trichotomy [OF _ assms(2)] by blast
  then have "mset (filter (\<lambda>e. date_le (ev_end e) now) es) + mset (filter (spansNow now) es) +
     mset (filter (\<lambda>e. date_gt (ev_start e) now) es) = mset es"
    by (rule mset_three_way)
  then show "mset (allBuckets (classifyEvents es now)) + mset (drop 1 (filter (spansNow now) es)) = mset es"
    by (simp only: allBuckets_classify)
next
  have "current (classifyEvents es now) = find (spansNow now) es"
    by (simp add: classifyEvents_def Let_def spansNow_def [abs_def])
  then show "(current (classifyEvents es now) \<noteq> None) = (\<exists>e\<in>set es. spansNow now e)"
    by (auto simp add: find_None_iff)
qed

text \<open>
  The spec's example: at 09:45 the second event is current, the third is next, nothing
  is upcoming and the first is past.
\<close>

lemma classify_example:
  "classifyEvents exampleEvents exampleNow =
     \<lparr>current = Some (mkEvent ''b'' 34200000 36900000),
      nxt = Some (mkEvent ''c'' 39600000 41400000),
      upcoming = [],
      past = [mkEvent ''a'' 32400000 34200000]\<rparr>"
  by (simp add: classifyEvents_def exampleEvents_def exampleNow_def mkEvent_def)

text \<open>
  Claim C1, amended, on the example day: one event contains 09:45, and the four buckets
  hold the three events.
\<close>

theorem classify_partition_witness:
  "startBeforeEnd exampleEvents \<and> exampleNow \<noteq> InvalidDate \<and>
   mset (allBuckets (classifyEvents exampleEvents exampleNow)) = mset exampleEvents \<and>
   current (classifyEvents exampleEvents exampleNow) \<noteq> None"
proof -
  have h: "startBeforeEnd exampleEvents"
    by (simp add: startBeforeEnd_def exampleEvents_def mkEvent_def)
  have n: "exampleNow \<noteq> InvalidDate" by (simp add: exampleNow_def)
  have one: "drop 1 (filter (spansNow exampleNow) exampleEvents) = []"
    by (simp add: spansNow_def exampleEvents_def exampleNow_def mkEvent_def)
  have ex: "\<exists>e\<in>set exampleEvents. spansNow exampleNow e"
    by (simp add: spansNow_def exampleEvents_def exampleNow_def mkEvent_def)
  from classify_partition [OF h n] one ex h n show ?thesis by simp
qed

text \<open>
  Claim C1 as stated fails when two events overlap: of 09:00--10:00 and 09:30--10:15,
  sorted by start, the first is \<open>current\<close> at 09:45 and the second, which also contains
  09:45, is in none of the four buckets.
\<close>

theorem classify_partition_counterexample:
  "sortedByStart overlappingEvents \<and> startBeforeEnd overlappingEvents \<and>
   mkEvent ''b'' 34200000 36900000 \<in> set overlappingEvents \<and>
   spansNow exampleNow (mkEvent ''b'' 34200000 36900000) \<and>
   current (classifyEvents overlappingEvents exampleNow) = Some (mkEvent ''a'' 32400000 36000000) \<and>
   nxt (classifyEvents overlappingEvents exampleNow) = None \<and>
   upcoming (classifyEvents overlappingEvents exampleNow) = [] \<and>
   past (classifyEvents overlappingEvents exampleNow) = [] \<and>
   mkEvent ''b'' 34200000 36900000 \<notin> set (allBuckets (classifyEvents overlappingEvents exampleNow))"
  by (simp add: sortedByStart_def startBeforeEnd_def overlappingEvents_def exampleNow_def
      mkEvent_def spansNow_def classifyEvents_def allBuckets_def)

section \<open>The normalizer\<close>

lemma bindE_Inr [simp]: "bindE (Inr v) f = f v"
  by (simp add: bindE_def)

lemma bindE_Inl [simp]: "bindE (Inl e) f = Inl e"
  by (simp add: bindE_def)

lemma bindE_Inl_iff: "(bindE m f = Inl x) = (m = Inl x \<or> (\<exists>v. m = Inr v \<and> f v = Inl x))"
  by (cases m) auto

lemma js_toString_error:
  "js_toString v = Inl x \<Longrightarrow> x = HostTypeError"
  "js_elementStrings vs = Inl x \<Longrightarrow> x = HostTypeError"
  by (induction v and vs arbitrary: x and x rule: js_toString_js_elementStrings.induct)
     (auto simp add: bindE_Inl_iff split: if_splits)

lemma newDate_error: "newDate parse v = Inl x \<Longrightarrow> x = HostTypeError"
  by (cases v) (auto simp add: bindE_Inl_iff split: if_splits dest: js_toString_error(2))

lemma newDate_unconvertible:
  "newDate parse (JObj [(''toString'', JNum 1)]) = Inl HostTypeError"
  "newDate parse (JArr [JStr ''a'', JObj [(''toString'', JNum 1)]]) = Inl HostTypeError"
  "newDate parse (JObj [(''valueOf'', JNum 1)]) = Inr (dateOfString parse ''[object Object]'')"
  "newDate parse (JArr [JNull, JStr ''a'']) = Inr (dateOfString parse '',a'')"
  by simp_all

lemma newDate_primitive: "isPrimitive v \<Longrightarrow> \<exists>d. newDate parse v = Inr d"
  by (cases v) simp_all

lemma newDate_JStr: "newDate parse (JStr s) = Inr (dateOfString parse s)"
  by simp

lemma normalizeEvent_JObj:
  "normalizeEvent parse (JObj fs) =
     (if \<not> truthy (optProp (field fs ''start'') ''dateTime'') \<or>
         \<not> truthy (optProp (field fs ''end'') ''dateTime'')
      then Inr None
      else bindE (newDate parse (optProp (field fs ''start'') ''dateTime'')) (\<lambda>s.
           bindE (newDate parse (optProp (field fs ''end'') ''dateTime'')) (\<lambda>e.
             Inr (Some \<lparr>ev_id = field fs ''id'',
                        ev_title = (if truthy (field fs ''summary'') then field fs ''summary''
                                    else JStr ''(no title)''),
                        ev_start = s, ev_end = e, ev_manuallyCompleted = False\<rparr>))))"
  by (simp add: normalizeEvent_def Let_def)

lemma normalizeEvent_JObj_Some:
  assumes "normalizeEvent parse (JObj fs) = Inr (Some e)"
  shows "truthy (optProp (field fs ''start'') ''dateTime'')"
    and "truthy (optProp (field fs ''end'') ''dateTime'')"
    and "newDate parse (optProp (field fs ''start'') ''dateTime'') = Inr (ev_start e)"
    and "newDate parse (optProp (field fs ''end'') ''dateTime'') = Inr (ev_end e)"
    and "ev_title e = (if truthy (field fs ''summary'') then field fs ''summary''
                       else JStr ''(no title)'')"
proof -
  from assms show t: "truthy (optProp (field fs ''start'') ''dateTime'')"
    "truthy (optProp (field fs ''end'') ''dateTime'')"
    by (auto simp add: normalizeEvent_JObj split: if_splits)
  from assms t obtain s where s: "newDate parse (optProp (field fs ''start'') ''dateTime'') = Inr s"
    by (cases "newDate parse (optProp (field fs ''start'') ''dateTime'')")
       (simp_all add: normalizeEvent_JObj)
  from assms t s obtain d where d: "newDate parse (optProp (field fs ''end'') ''dateTime'') = Inr d"
    by (cases "newDate parse (optProp (field fs ''end'') ''dateTime'')")
       (simp_all add: normalizeEvent_JObj)
  from assms t s d have e: "e = \<lparr>ev_id = field fs ''id'',
                        ev_title = (if truthy (field fs ''summary'') then field fs ''summary''
                                    else JStr ''(no title)''),
                        ev_start = s, ev_end = d, ev_manuallyCompleted = False\<rparr>"
    by (simp add: normalizeEvent_JObj)
  from s e show "newDate parse (optProp (field fs ''start'') ''dateTime'') = Inr (ev_start e)"
    by simp
  from d e show "newDate parse (optProp (field fs ''end'') ''dateTime'') = Inr (ev_end e)"
    by simp
  from e show "ev_title e = (if truthy (field fs ''summary'') then field fs ''summary''
                       else JStr ''(no title)'')"
    by simp
qed

lemma normalizeEvent_JObj_error:
  assumes "normalizeEvent parse (JObj fs) = Inl x"
  shows "x = HostTypeError"
    and "truthy (optProp (field fs ''start'') ''dateTime'')"
    and "truthy (optProp (field fs ''end'') ''dateTime'')"
    and "newDate parse (optProp (field fs ''start'') ''dateTime'') = Inl HostTypeError \<or>
         newDate parse (optProp (field fs ''end'') ''dateTime'') = Inl HostTypeError"
proof -
  from assms show t: "truthy (optProp (field fs ''start'') ''dateTime'')"
    "truthy (optProp (field fs ''end'') ''dateTime'')"
    by (auto simp add: normalizeEvent_JObj split: if_splits)
  show d: "newDate parse (optProp (field fs ''start'') ''dateTime'') = Inl HostTypeError \<or>
         newDate parse (optProp (field fs ''end'') ''dateTime'') = Inl HostTypeError"
  proof (cases "newDate parse (optProp (field fs ''start'') ''dateTime'')")
    case (Inl y)
    then show ?thesis using newDate_error by blast
  next
    case (Inr s)
    with assms t obtain y where "newDate parse (optProp (field fs ''end'') ''dateTime'') = Inl y"
      by (cases "newDate parse (optProp (field fs ''end'') ''dateTime'')")
         (simp_all add: normalizeEvent_JObj)
    then show ?thesis using newDate_error by blast
  qed
  from assms t show "x = HostTypeError"
    by (auto simp add: normalizeEvent_JObj bindE_Inl_iff dest: newDate_error)
qed

lemma normalizeEvent_cases:
  "normalizeEvent parse raw = Inl HostTypeError \<and> (raw = JUndefined \<or> raw = JNull) \<or>
   normalizeEvent parse raw = Inr None \<and> (\<forall>fs. raw \<noteq> JObj fs) \<and> raw \<noteq> JUndefined \<and> raw \<noteq> JNull \<or>
   (\<exists>fs. raw = JObj fs)"
  by (cases raw) (simp_all add: normalizeEvent_def Let_def)

lemma normalizeEvent_Some_JObj:
  assumes "normalizeEvent parse raw = Inr (Some e)"
  obtains fs where "raw = JObj fs"
  using assms normalizeEvent_cases [of parse raw] by auto

text \<open>
  Claim C6, amended. When the normalizer returns an event, the raw object carries a
  truthy \<open>start.dateTime\<close> and a truthy \<open>end.dateTime\<close>, \<open>new Date\<close> of each of the two
  values has returned, and the event's \<open>start\<close> and \<open>end\<close> are these two dates, taken as
  they come: the event has \<open>start < end\<close> exactly when the two time stamps parse to valid
  instants in that order. An event without an explicit start or end \<open>dateTime\<close> is never
  built.
\<close>

theorem normalizeEvent_dates:
  assumes "normalizeEvent parse raw = Inr (Some e)"
  shows "\<exists>st en ds de. getProp raw ''start'' = Inr st \<and> getProp raw ''end'' = Inr en \<and>
           truthy (optProp st ''dateTime'') \<and> truthy (optProp en ''dateTime'') \<and>
           newDate parse (optProp st ''dateTime'') = Inr ds \<and>
           newDate parse (optProp en ''dateTime'') = Inr de \<and>
           ev_start e = ds \<and> ev_end e = de \<and>
           date_lt (ev_start e) (ev_end e) = date_lt ds de"
proof -
  from assms obtain fs where raw: "raw = JObj fs" by (rule normalizeEvent_Some_JObj)
  from assms have n: "normalizeEvent parse (JObj fs) = Inr (Some e)" by (simp only: raw)
  from normalizeEvent_JObj_Some(1-4) [OF n] show ?thesis by (simp add: raw)
qed

lemma exampleParse_simps:
  "exampleParse ''2024-01-01T09:00:00Z'' = Some 1704099600000"
  "exampleParse ''2024-01-01T10:00:00Z'' = Some 1704103200000"
  "exampleParse ''2024-01-01T11:00:00Z'' = Some 1704106800000"
  "exampleParse ''not a date'' = None"
  by (simp_all add: exampleParse_def)

lemma newDate_example:
  "newDate exampleParse (JStr ''2024-01-01T09:00:00Z'') = Inr (Date 1704099600000)"
  "newDate exampleParse (JStr ''2024-01-01T10:00:00Z'') = Inr (Date 1704103200000)"
  "newDate exampleParse (JStr ''2024-01-01T11:00:00Z'') = Inr (Date 1704106800000)"
  "newDate exampleParse (JStr ''not a date'') = Inr InvalidDate"
  by (simp_all add: dateOfString_def exampleParse_simps maxTime_def)

lemma normalizeEvent_rawEvent:
  assumes "s \<noteq> []" and "e \<noteq> []"
    and "newDate parse (JStr s) = Inr ds" and "newDate parse (JStr e) = Inr de"
  shows "normalizeEvent parse (rawEvent i s e) =
     Inr (Some \<lparr>ev_id = JStr i, ev_title = JStr ''(no title)'',
                ev_start = ds, ev_end = de, ev_manuallyCompleted = False\<rparr>)"
  using assms by (simp add: normalizeEvent_JObj rawEvent_def field_def del: newDate.simps)

lemma normalize_rawMorning:
  "normalizeEvent exampleParse rawMorning = Inr (Some evMorning)"
  unfolding rawMorning_def evMorning_def
  by (rule normalizeEvent_rawEvent) (simp_all add: newDate_example del: newDate.simps)

lemma normalize_rawLater:
  "normalizeEvent exampleParse rawLater = Inr (Some evLater)"
  unfolding rawLater_def evLater_def
  by (rule normalizeEvent_rawEvent) (simp_all add: newDate_example del: newDate.simps)

text \<open>
  Claim C6, amended, at the 09:00--10:00 event.
\<close>

theorem normalizeEvent_dates_witness:
  "normalizeEvent exampleParse rawMorning = Inr (Some evMorning) \<and>
   truthy (optProp (JObj [(''dateTime'', JStr ''2024-01-01T09:00:00Z'')]) ''dateTime'') \<and>
   newDate exampleParse (JStr ''2024-01-01T09:00:00Z'') = Inr (ev_start evMorning) \<and>
   newDate exampleParse (JStr ''2024-01-01T10:00:00Z'') = Inr (ev_end evMorning) \<and>
   date_lt (ev_start evMorning) (ev_end evMorning)"
  using normalizeEvent_dates [OF normalize_rawMorning]
  by (simp add: normalize_rawMorning field_def newDate_example evMorning_def del: newDate.simps)

text \<open>
  Claim C6 as stated fails: for the raw event that starts and ends at 09:00 the
  normalizer returns an event, and its \<open>start\<close> is not before its \<open>end\<close>.
\<close>

theorem normalizeEvent_start_before_end_counterexample:
  "normalizeEvent exampleParse rawZeroLength =
     Inr (Some \<lparr>ev_id = JStr ''z'', ev_title = JStr ''(no title)'',
                ev_start = Date 1704099600000, ev_end = Date 1704099600000,
                ev_manuallyCompleted = False\<rparr>) \<and>
   \<not> date_lt (Date 1704099600000) (Date 1704099600000)"
proof -
  have "normalizeEvent exampleParse rawZeroLength =
     Inr (Some \<lparr>ev_id = JStr ''z'', ev_title = JStr ''(no title)'',
                ev_start = Date 1704099600000, ev_end = Date 1704099600000,
                ev_manuallyCompleted = False\<rparr>)"
    unfolding rawZeroLength_def
    by (rule normalizeEvent_rawEvent) (simp_all add: newDate_example del: newDate.simps)
  then show ?thesis by simp
qed

text \<open>
  Claim C7, amended. For every raw object the normalizer returns the skip value \<open>null\<close>
  exactly when \<open>start?.dateTime\<close> or \<open>end?.dateTime\<close> is missing or falsy. When the two
  time stamps are primitive values (the strings the provider sends, numbers, booleans)
  it returns and does not throw. The only error it throws for an object is the
  \<open>TypeError\<close> of \<open>new Date\<close> on a truthy time stamp that is an array or an object and
  cannot be converted to a primitive. The title of a returned event is the summary when
  that is truthy and \<open>(no title)\<close> otherwise, in particular when the summary is absent;
  and the \<open>start\<close> and \<open>end\<close> of a returned event are \<open>new Date\<close> of the two time stamps,
  which is an Invalid Date, not a skip, for a string that does not parse.
\<close>

theorem normalizeEvent_object:
  "(normalizeEvent parse (JObj fs) = Inr None) =
     (\<not> truthy (optProp (field fs ''start'') ''dateTime'') \<or>
      \<not> truthy (optProp (field fs ''end'') ''dateTime'')) \<and>
   (isPrimitive (optProp (field fs ''start'') ''dateTime'') \<and>
    isPrimitive (optProp (field fs ''end'') ''dateTime'') \<longrightarrow>
      (\<exists>r. normalizeEvent parse (JObj fs) = Inr r)) \<and>
   (\<forall>x. normalizeEvent parse (JObj fs) = Inl x \<longrightarrow>
      x = HostTypeError \<and>
      truthy (optProp (field fs ''start'') ''dateTime'') \<and>
      truthy (optProp (field fs ''end'') ''dateTime'') \<and>
      (\<not> isPrimitive (optProp (field fs ''start'') ''dateTime'') \<or>
       \<not> isPrimitive (optProp (field fs ''end'') ''dateTime'')) \<and>
      (newDate parse (optProp (field fs ''start'') ''dateTime'') = Inl HostTypeError \<or>
       newDate parse (optProp (field fs ''end'') ''dateTime'') = Inl HostTypeError)) \<and>
   (\<forall>e. normalizeEvent parse (JObj fs) = Inr (Some e) \<longrightarrow>
      ev_title e = (if truthy (field fs ''summary'') then field fs ''summary'' else JStr ''(no title)'') \<and>
      (map_of fs ''summary'' = None \<longrightarrow> ev_title e = JStr ''(no title)'') \<and>
      newDate parse (optProp (field fs ''start'') ''dateTime'') = Inr (ev_start e) \<and>
      newDate parse (optProp (field fs ''end'') ''dateTime'') = Inr (ev_end e) \<and>
      (\<forall>s. optProp (field fs ''start'') ''dateTime'' = JStr s \<and> parse s = None \<longrightarrow>
         ev_start e = InvalidDate) \<and>
      (\<forall>s. optProp (field fs ''end'') ''dateTime'' = JStr s \<and> parse s = None \<longrightarrow>
         ev_end e = InvalidDate))"
proof -
  let ?sdt = "optProp (field fs ''start'') ''dateTime''"
  let ?edt = "optProp (field fs ''end'') ''dateTime''"
  have skip: "(normalizeEvent parse (JObj fs) = Inr None) = (\<not> truthy ?sdt \<or> \<not> truthy ?edt)"
    by (cases "newDate parse ?sdt"; cases "newDate parse ?edt")
       (simp_all add: normalizeEvent_JObj)
  have err: "x = HostTypeError \<and> truthy ?sdt \<and> truthy ?edt \<and>
      (newDate parse ?sdt = Inl HostTypeError \<or> newDate parse ?edt = Inl HostTypeError)"
    if "normalizeEvent parse (JObj fs) = Inl x" for x
    using normalizeEvent_JObj_error [OF that] by simp
  have prim: "\<not> isPrimitive ?sdt \<or> \<not> isPrimitive ?edt"
    if "normalizeEvent parse (JObj fs) = Inl x" for x
    using err [OF that] newDate_primitive [of ?sdt parse] newDate_primitive [of ?edt parse]
    by auto
  have ret: "\<exists>r. normalizeEvent parse (JObj fs) = Inr r"
    if "isPrimitive ?sdt \<and> isPrimitive ?edt"
    using that prim by (cases "normalizeEvent parse (JObj fs)") auto
  have ev: "ev_title e = (if truthy (field fs ''summary'') then field fs ''summary'' else JStr ''(no title)'') \<and>
      (map_of fs ''summary'' = None \<longrightarrow> ev_title e = JStr ''(no title)'') \<and>
      newDate parse ?sdt = Inr (ev_start e) \<and> newDate parse ?edt = Inr (ev_end e) \<and>
      (\<forall>s. ?sdt = JStr s \<and> parse s = None \<longrightarrow> ev_start e = InvalidDate) \<and>
      (\<forall>s. ?edt = JStr s \<and> parse s = None \<longrightarrow> ev_end e = InvalidDate)"
    if "normalizeEvent parse (JObj fs) = Inr (Some e)" for e
    using normalizeEvent_JObj_Some(3-5) [OF that]
    by (auto simp add: field_def dateOfString_def)
  from skip err prim ret ev show ?thesis by blast
qed

lemma normalize_rawUnconvertible:
  "normalizeEvent parse rawUnconvertible = Inl HostTypeError"
  by (simp add: rawUnconvertible_def normalizeEvent_JObj field_def)

text \<open>
  Claim C7, amended, at the all-day event (skipped), at the 09:00--10:00 event, which
  has two strings as time stamps and no summary, and at the event whose start time stamp
  is the object \<open>{"toString": 1}\<close>.
\<close>

theorem normalizeEvent_object_witness:
  "normalizeEvent exampleParse rawAllDay = Inr None \<and>
   \<not> truthy (optProp (JObj [(''date'', JStr ''2024-01-01'')]) ''dateTime'') \<and>
   isPrimitive (JStr ''2024-01-01T09:00:00Z'') \<and> isPrimitive (JStr ''2024-01-01T10:00:00Z'') \<and>
   normalizeEvent exampleParse rawMorning = Inr (Some evMorning) \<and>
   map_of [(''id'', JStr ''m1''), (''start'', JObj [(''dateTime'', JStr ''2024-01-01T09:00:00Z'')]),
           (''end'', JObj [(''dateTime'', JStr ''2024-01-01T10:00:00Z'')])] ''summary'' = None \<and>
   ev_title evMorning = JStr ''(no title)'' \<and>
   normalizeEvent exampleParse rawUnconvertible = Inl HostTypeError \<and>
   \<not> isPrimitive (JObj [(''toString'', JNum 1)]) \<and>
   newDate exampleParse (JObj [(''toString'', JNum 1)]) = Inl HostTypeError"
  using normalizeEvent_object [of exampleParse "[(''id'', JStr ''d''), (''summary'', JStr ''Holiday''),
           (''start'', JObj [(''date'', JStr ''2024-01-01'')]),
           (''end'', JObj [(''date'', JStr ''2024-01-02'')])]"]
    normalizeEvent_object [of exampleParse "[(''id'', JStr ''m1''), (''start'', JObj [(''dateTime'', JStr ''2024-01-01T09:00:00Z'')]),
           (''end'', JObj [(''dateTime'', JStr ''2024-01-01T10:00:00Z'')])]"]
    normalizeEvent_object [of exampleParse "[(''id'', JStr ''t''), (''start'', JObj [(''dateTime'', JObj [(''toString'', JNum 1)])]),
           (''end'', JObj [(''dateTime'', JStr ''2024-01-01T10:00:00Z'')])]"]
  by (simp add: normalize_rawMorning normalize_rawUnconvertible rawAllDay_def field_def
      evMorning_def)

text \<open>
  Claim C7 as stated fails twice. The time stamps of the first raw event are present and
  are not dates, and the normalizer does not skip it but returns an event whose \<open>start\<close>
  and \<open>end\<close> are Invalid Dates. The start time stamp of the second is an object that
  cannot be converted to a primitive, and the normalizer throws the \<open>TypeError\<close> of
  \<open>new Date\<close>.
\<close>

theorem normalizeEvent_invalid_timestamp_counterexample:
  "exampleParse ''not a date'' = None \<and>
   normalizeEvent exampleParse rawUnparseable =
     Inr (Some \<lparr>ev_id = JStr ''u'', ev_title = JStr ''(no title)'',
                ev_start = InvalidDate, ev_end = InvalidDate,
                ev_manuallyCompleted = False\<rparr>) \<and>
   normalizeEvent exampleParse rawUnparseable \<noteq> Inr None \<and>
   normalizeEvent exampleParse rawUnconvertible = Inl HostTypeError"
proof -
  have "normalizeEvent exampleParse rawUnparseable =
     Inr (Some \<lparr>ev_id = JStr ''u'', ev_title = JStr ''(no title)'',
                ev_start = InvalidDate, ev_end = InvalidDate,
                ev_manuallyCompleted = False\<rparr>)"
    unfolding rawUnparseable_def
    by (rule normalizeEvent_rawEvent) (simp_all add: newDate_example del: newDate.simps)
  then show ?thesis by (simp add: exampleParse_simps normalize_rawUnconvertible)
qed

section \<open>The background selection and the classifier\<close>

lemma truthy_optProp: "truthy (optProp v k) \<Longrightarrow> getProp v k = Inr (optProp v k)"
  by (cases v) simp_all

lemma normalizesTo_predicates:
  assumes "normalizesTo parse r e"
  shows "isCurrentRaw parse now r = Inr (spansNow now e)"
    and "isNextRaw parse now r = Inr (date_gt (ev_start e) now)"
proof -
  from assms have n: "normalizeEvent parse r = Inr (Some e)"
    by (simp add: normalizesTo_def)
  then obtain fs where r: "r = JObj fs" by (rule normalizeEvent_Some_JObj)
  from n have m: "normalizeEvent parse (JObj fs) = Inr (Some e)" by (simp only: r)
  note ts = normalizeEvent_JObj_Some(1) [OF m] and te = normalizeEvent_JObj_Some(2) [OF m]
    and s = normalizeEvent_JObj_Some(3) [OF m] and en = normalizeEvent_JObj_Some(4) [OF m]
  show "isCurrentRaw parse now r = Inr (spansNow now e)"
    by (simp add: isCurrentRaw_def r truthy_optProp [OF ts] truthy_optProp [OF te] s en spansNow_def)
  show "isNextRaw parse now r = Inr (date_gt (ev_start e) now)"
    by (simp add: isNextRaw_def r truthy_optProp [OF ts] s)
qed

lemma findE_find:
  assumes "list_all2 (\<lambda>r e. p r = Inr (q e) \<and> R r e) rs es"
  shows "\<exists>c. findE p rs = Inr c \<and> rel_option R c (find q es)"
  using assms by (induction rule: list_all2_induct) auto

text \<open>
  Claim C8. When the popup's event list is the normalisation of the background's raw
  list, item by item, then for every \<open>now\<close> the two \<open>find\<close> calls of the background
  return without throwing, and the raw events they select are the ones whose
  normalisations are the \<open>current\<close> and \<open>next\<close> fields of \<open>classifyEvents\<close> (none on
  one side exactly when none on the other).
\<close>

theorem background_agrees:
  assumes "list_all2 (normalizesTo parse) raws es"
  shows "\<exists>c n. selectCurrentNext parse now raws = Inr (c, n) \<and>
           rel_option (normalizesTo parse) c (current (classifyEvents es now)) \<and>
           rel_option (normalizesTo parse) n (nxt (classifyEvents es now))"
proof -
  have "list_all2 (\<lambda>r e. isCurrentRaw parse now r = Inr (spansNow now e) \<and> normalizesTo parse r e) raws es"
    using assms by (rule list_all2_mono) (simp add: normalizesTo_predicates)
  then obtain c where c: "findE (isCurrentRaw parse now) raws = Inr c"
    "rel_option (normalizesTo parse) c (find (spansNow now) es)"
    using findE_find by blast
  have "list_all2 (\<lambda>r e. isNextRaw parse now r = Inr (date_gt (ev_start e) now) \<and> normalizesTo parse r e) raws es"
    using assms by (rule list_all2_mono) (simp add: normalizesTo_predicates)
  then obtain n where n: "findE (isNextRaw parse now) raws = Inr n"
    "rel_option (normalizesTo parse) n (find (\<lambda>e. date_gt (ev_start e) now) es)"
    using findE_find [where q = "\<lambda>e. date_gt (ev_start e) now"] by blast
  have cur: "current (classifyEvents es now) = find (spansNow now) es"
    by (simp add: classifyEvents_def Let_def spansNow_def [abs_def])
  have nx: "nxt (classifyEvents es now) = find (\<lambda>e. date_gt (ev_start e) now) es"
    by (simp add: classifyEvents_def Let_def find_as_filter)
  from c n show ?thesis
    by (simp add: selectCurrentNext_def cur nx)
qed

lemma classify_morning:
  "classifyEvents [evMorning, evLater] halfPastNine =
     \<lparr>current = Some evMorning, nxt = Some evLater, upcoming = [], past = []\<rparr>"
  by (simp add: classifyEvents_def evMorning_def evLater_def halfPastNine_def)

text \<open>
  Claim C8 at 09:30 on the two example events: the first is current and the second is
  next in both contexts.
\<close>

theorem background_agrees_witness:
  "list_all2 (normalizesTo exampleParse) [rawMorning, rawLater] [evMorning, evLater] \<and>
   selectCurrentNext exampleParse halfPastNine [rawMorning, rawLater] =
     Inr (Some rawMorning, Some rawLater) \<and>
   current (classifyEvents [evMorning, evLater] halfPastNine) = Some evMorning \<and>
   nxt (classifyEvents [evMorning, evLater] halfPastNine) = Some evLater"
proof -
  have h: "list_all2 (normalizesTo exampleParse) [rawMorning, rawLater] [evMorning, evLater]"
    by (simp add: normalizesTo_def normalize_rawMorning normalize_rawLater)
  from background_agrees [OF h, of halfPastNine]
  obtain c n where sel: "selectCurrentNext exampleParse halfPastNine [rawMorning, rawLater] = Inr (c, n)"
    and c: "rel_option (normalizesTo exampleParse) c (Some evMorning)"
    and n: "rel_option (normalizesTo exampleParse) n (Some evLater)"
    unfolding classify_morning by auto
  have "isCurrentRaw exampleParse halfPastNine rawMorning = Inr True"
    using normalizesTo_predicates(1) [of exampleParse rawMorning evMorning halfPastNine]
    by (simp add: normalizesTo_def normalize_rawMorning spansNow_def evMorning_def halfPastNine_def)
  moreover have "isNextRaw exampleParse halfPastNine rawMorning = Inr False"
    using normalizesTo_predicates(2) [of exampleParse rawMorning evMorning halfPastNine]
    by (simp add: normalizesTo_def normalize_rawMorning evMorning_def halfPastNine_def)
  moreover have "isNextRaw exampleParse halfPastNine rawLater = Inr True"
    using normalizesTo_predicates(2) [of exampleParse rawLater evLater halfPastNine]
    by (simp add: normalizesTo_def normalize_rawLater evLater_def halfPastNine_def)
  ultimately have "selectCurrentNext exampleParse halfPastNine [rawMorning, rawLater] =
     Inr (Some rawMorning, Some rawLater)"
    by (simp add: selectCurrentNext_def)
  with h sel show ?thesis by (simp add: classify_morning)
qed

section \<open>The 401 retry of \<open>loadAndRender\<close>\<close>

lemma messageIsUnauthorized_iff: "messageIsUnauthorized e = (e = ErrorObj ''UNAUTHORIZED'')"
  by (cases e) auto

lemma normalizeEvent_error: "normalizeEvent parse raw = Inl e \<Longrightarrow> e = HostTypeError"
  using normalizeEvent_cases [of parse raw] normalizeEvent_JObj_error(1) [of parse _ e]
  by auto

lemma mapE_error:
  assumes "\<And>x e. f x = Inl e \<Longrightarrow> e = HostTypeError"
  shows "mapE f xs = Inl e \<Longrightarrow> e = HostTypeError"
proof (induction xs arbitrary: e)
  case Nil
  then show ?case by simp
next
  case (Cons x xs)
  show ?case
  proof (cases "f x")
    case (Inl a)
    with Cons.prems assms [of x a] show ?thesis by simp
  next
    case (Inr y)
    note fx = this
    show ?thesis
    proof (cases "mapE f xs")
      case (Inl a)
      with Cons.prems fx Cons.IH [of a] show ?thesis by simp
    next
      case (Inr ys)
      with Cons.prems fx show ?thesis by simp
    qed
  qed
qed

lemma items_error:
  assumes "bindE (getProp data ''items'') (\<lambda>items.
             case (if truthy items then items else JArr []) of
               JArr xs \<Rightarrow> bindE (mapE (normalizeEvent parse) xs) (\<lambda>ys. Inr (List.map_filter (\<lambda>y. y) ys))
             | _ \<Rightarrow> Inl HostTypeError) = Inl e"
  shows "e = HostTypeError"
proof (cases "getProp data ''items''")
  case (Inl a)
  then have "a = HostTypeError" by (cases data) simp_all
  with assms Inl show ?thesis by simp
next
  case (Inr items)
  show ?thesis
  proof (cases "if truthy items then items else JArr []")
    case (JArr xs)
    with assms Inr have m: "bindE (mapE (normalizeEvent parse) xs) (\<lambda>ys. Inr (List.map_filter (\<lambda>y. y) ys)) = Inl e"
      by simp
    then obtain a where a: "mapE (normalizeEvent parse) xs = Inl a"
      by (cases "mapE (normalizeEvent parse) xs") simp_all
    with m have "a = e" by simp
    with a mapE_error [of "normalizeEvent parse" xs e] normalizeEvent_error show ?thesis
      by blast
  qed (use assms Inr in simp_all)
qed

lemma eventsOfResponse_unauthorized:
  "(eventsOfResponse parse res = Inl (ErrorObj ''UNAUTHORIZED'')) = (\<exists>b. res = Response 401 b)"
proof (cases res)
  case NetworkFailure
  then show ?thesis by (simp add: eventsOfResponse_def)
next
  case (Response status b)
  show ?thesis
  proof (cases "status = 401")
    case True
    with Response show ?thesis by (simp add: eventsOfResponse_def)
  next
    case False
    note st = this
    show ?thesis
    proof (cases "res_ok status")
      case False
      with st Response show ?thesis by (simp add: eventsOfResponse_def)
    next
      case True
      show ?thesis
      proof (cases b)
        case BadJson
        with True st Response show ?thesis by (simp add: eventsOfResponse_def)
      next
        case (Json data)
        have "eventsOfResponse parse res \<noteq> Inl (ErrorObj ''UNAUTHORIZED'')"
        proof
          assume "eventsOfResponse parse res = Inl (ErrorObj ''UNAUTHORIZED'')"
          with Json True st Response
          have "ErrorObj ''UNAUTHORIZED'' = HostTypeError"
            by (intro items_error [of data parse]) (simp add: eventsOfResponse_def)
          then show False by simp
        qed
        with st Response show ?thesis by simp
      qed
    qed
  qed
qed

text \<open>
  Claim C9. \<open>fetchTodayEvents\<close> fails with \<open>Error('UNAUTHORIZED')\<close> exactly when the
  response has status 401. When the first response of \<open>loadAndRender\<close> has status 401,
  the calls it makes after that fetch are one \<open>refreshToken\<close> (a silent token request
  and, if that yields a token, the removal of the cached token), one silent
  \<open>getAuthToken\<close>, and, if a token was reacquired, one more fetch with that token and
  no call after it; the outcome of that second fetch is the outcome of
  \<open>loadAndRender\<close>, so an error of the retry goes to the caller, and without a
  reacquired token the rejection of \<open>getAuthToken\<close> does. With any other first
  response there is the one fetch only, and its outcome is the outcome.
\<close>

theorem unauthorized_retry_once:
  "let n = length (filter isFetch tr);
       m = length (filter isGetAuthToken tr);
       first = fetch_impl E n token;
       silent = snd (identity_impl E m False);
       reacquired = identity_impl E (Suc m) False;
       ok = (fst reacquired = None \<and> tokenTruthy (snd reacquired));
       second = fetch_impl E (Suc n) (the (snd reacquired));
       result = loadAndRender E parse stored nowA nowR token (s, tr)
   in (fst (fetchTodayEvents E parse token tr) = Inl (ErrorObj ''UNAUTHORIZED'')) =
        (\<exists>b. first = Response 401 b) \<and>
      ((\<exists>b. first = Response 401 b) \<longrightarrow>
         snd result =
           tr @ [CallFetch token, CallGetAuthToken False] @
           (if tokenTruthy silent then [CallRemoveCachedAuthToken (the silent)] else []) @
           [CallGetAuthToken False] @
           (if ok then [CallFetch (the (snd reacquired))] else []) \<and>
         (ok \<longrightarrow> fst result =
            (case eventsOfResponse parse second of
               Inl e \<Rightarrow> Inl e
             | Inr evs \<Rightarrow> Inr (afterFetch stored nowA nowR s evs))) \<and>
         (\<not> ok \<longrightarrow> (\<exists>msg. fst result = Inl (ThrownString msg)))) \<and>
      ((\<nexists>b. first = Response 401 b) \<longrightarrow>
         snd result = tr @ [CallFetch token] \<and>
         fst result =
            (case eventsOfResponse parse first of
               Inl e \<Rightarrow> Inl e
             | Inr evs \<Rightarrow> Inr (afterFetch stored nowA nowR s evs)))"
proof -
  let ?n = "length (filter isFetch tr)"
  let ?m = "length (filter isGetAuthToken tr)"
  let ?first = "fetch_impl E ?n token"
  have a: "(fst (fetchTodayEvents E parse token tr) = Inl (ErrorObj ''UNAUTHORIZED'')) =
        (\<exists>b. ?first = Response 401 b)"
    by (simp add: fetchTodayEvents_def Let_def eventsOfResponse_unauthorized)
  have b: "snd (loadAndRender E parse stored nowA nowR token (s, tr)) = tr @ [CallFetch token] \<and>
         fst (loadAndRender E parse stored nowA nowR token (s, tr)) =
            (case eventsOfResponse parse ?first of
               Inl e \<Rightarrow> Inl e
             | Inr evs \<Rightarrow> Inr (afterFetch stored nowA nowR s evs))"
    if "\<nexists>b. ?first = Response 401 b"
  proof -
    from that have "eventsOfResponse parse ?first \<noteq> Inl (ErrorObj ''UNAUTHORIZED'')"
      by (simp add: eventsOfResponse_unauthorized)
    then show ?thesis
      by (cases "eventsOfResponse parse ?first")
         (simp_all add: loadAndRender_def fetchTodayEvents_def Let_def messageIsUnauthorized_iff)
  qed
  have c: "snd (loadAndRender E parse stored nowA nowR token (s, tr)) =
           tr @ [CallFetch token, CallGetAuthToken False] @
           (if tokenTruthy (snd (identity_impl E ?m False))
            then [CallRemoveCachedAuthToken (the (snd (identity_impl E ?m False)))] else []) @
           [CallGetAuthToken False] @
           (if fst (identity_impl E (Suc ?m) False) = None \<and> tokenTruthy (snd (identity_impl E (Suc ?m) False))
            then [CallFetch (the (snd (identity_impl E (Suc ?m) False)))] else []) \<and>
         (fst (identity_impl E (Suc ?m) False) = None \<and> tokenTruthy (snd (identity_impl E (Suc ?m) False)) \<longrightarrow>
            fst (loadAndRender E parse stored nowA nowR token (s, tr)) =
            (case eventsOfResponse parse (fetch_impl E (Suc ?n) (the (snd (identity_impl E (Suc ?m) False)))) of
               Inl e \<Rightarrow> Inl e
             | Inr evs \<Rightarrow> Inr (afterFetch stored nowA nowR s evs))) \<and>
         (\<not> (fst (identity_impl E (Suc ?m) False) = None \<and> tokenTruthy (snd (identity_impl E (Suc ?m) False))) \<longrightarrow>
            (\<exists>msg. fst (loadAndRender E parse stored nowA nowR token (s, tr)) = Inl (ThrownString msg)))"
    if "\<exists>b. ?first = Response 401 b"
  proof -
    from that have u: "eventsOfResponse parse ?first = Inl (ErrorObj ''UNAUTHORIZED'')"
      by (simp add: eventsOfResponse_unauthorized)
    obtain le1 t1 where i1: "identity_impl E ?m False = (le1, t1)" by (cases "identity_impl E ?m False")
    obtain le2 t2 where i2: "identity_impl E (Suc ?m) False = (le2, t2)"
      by (cases "identity_impl E (Suc ?m) False")
    show ?thesis
      by (simp add: loadAndRender_def fetchTodayEvents_def refreshToken_def getAuthToken_def
          Let_def u i1 i2 split: sum.splits)
  qed
  from a b c show ?thesis unfolding Let_def by blast
qed


text \<open>
  Claim C9 in a world that answers every fetch with 401: two fetches, one cycle between
  them, and \<open>Error('UNAUTHORIZED')\<close> thrown to the caller.
\<close>

theorem unauthorized_retry_once_witness:
  "fetch_impl alwaysUnauthorized 0 ''stale'' = Response 401 BadJson \<and>
   fst (loadAndRender alwaysUnauthorized exampleParse None exampleNow exampleNow ''stale''
          (exampleState, [])) = Inl (ErrorObj ''UNAUTHORIZED'') \<and>
   snd (loadAndRender alwaysUnauthorized exampleParse None exampleNow exampleNow ''stale''
          (exampleState, [])) =
     [CallFetch ''stale'', CallGetAuthToken False, CallRemoveCachedAuthToken ''fresh'',
      CallGetAuthToken False, CallFetch ''fresh'']"
  using unauthorized_retry_once [of "[]" alwaysUnauthorized "''stale''" exampleParse None
      exampleNow exampleNow exampleState]
  by (simp add: Let_def alwaysUnauthorized_def tokenTruthy_def eventsOfResponse_def)

section \<open>The streak\<close>

lemma digit_inj:
  assumes "i < 10" and "j < 10" and "''0123456789'' ! i = ''0123456789'' ! j"
  shows "i = j"
proof -
  have "distinct ''0123456789''" by simp
  moreover have "i < length ''0123456789''" "j < length ''0123456789''" using assms by simp_all
  ultimately show ?thesis using assms(3) by (simp only: nth_eq_iff_index_eq)
qed

lemma show_nat_two_digits:
  assumes "10 \<le> n" and "n < 100"
  shows "show_nat n = [''0123456789'' ! (n div 10), ''0123456789'' ! (n mod 10)]"
proof -
  from assms have d: "n div 10 < 10" by simp
  have "show_nat n = show_nat (n div 10) @ [''0123456789'' ! (n mod 10)]"
    using assms(1) by (subst show_nat.simps) simp
  also have "show_nat (n div 10) = [''0123456789'' ! (n div 10)]"
    using d by (subst show_nat.simps) simp
  finally show ?thesis by simp
qed

lemma padStart_two_digits:
  assumes "n < 100"
  shows "padStart 2 ''0'' (show_nat n) = [''0123456789'' ! (n div 10), ''0123456789'' ! (n mod 10)]"
proof (cases "n < 10")
  case True
  then have "show_nat n = [''0123456789'' ! n]" by (subst show_nat.simps) simp
  with True show ?thesis by (simp add: padStart_def)
next
  case False
  with assms show ?thesis by (simp add: show_nat_two_digits padStart_def del: show_nat.simps)
qed

lemma padStart_two_digits_inj:
  assumes "a < 100" and "b < 100"
    and "padStart 2 ''0'' (show_nat a) = padStart 2 ''0'' (show_nat b)"
  shows "a = b"
proof -
  from assms have "''0123456789'' ! (a div 10) = ''0123456789'' ! (b div 10)"
    and "''0123456789'' ! (a mod 10) = ''0123456789'' ! (b mod 10)"
    by (simp_all add: padStart_two_digits del: show_nat.simps)
  moreover from assms have "a div 10 < 10" "b div 10 < 10" "a mod 10 < 10" "b mod 10 < 10" by simp_all
  ultimately have "a div 10 = b div 10" and "a mod 10 = b mod 10"
    by (blast intro: digit_inj)+
  then show ?thesis by (metis div_mult_mod_eq)
qed

lemma todayKey_same_day:
  assumes "getDate a < 100" and "getDate b < 100" and "todayKey a = todayKey b"
  shows "getDate a = getDate b"
proof -
  let ?p = "\<lambda>d. show_nat (getFullYear d) @ ''-'' @ padStart 2 ''0'' (show_nat (getMonth d + 1)) @ ''-''"
  let ?s = "\<lambda>d. padStart 2 ''0'' (show_nat (getDate d))"
  have k: "todayKey d = ?p d @ ?s d" for d
    by (simp add: todayKey_def del: show_nat.simps)
  have l: "length (?s a) = length (?s b)"
    using assms(1,2) by (simp add: padStart_two_digits del: show_nat.simps)
  from assms(3) have "?p a @ ?s a = ?p b @ ?s b" by (simp only: k)
  with l have "?s a = ?s b" using append_eq_append_conv [of "?p a" "?p b" "?s a" "?s b"] by blast
  with assms(1,2) show ?thesis by (rule padStart_two_digits_inj)
qed

lemma daysInMonth_bounds: "28 \<le> daysInMonth y m \<and> daysInMonth y m \<le> 31"
  by (simp add: daysInMonth_def)

lemma todayKey_yesterday:
  assumes "validLocalDate d"
  shows "todayKey (setDatePrevious d) \<noteq> todayKey d"
proof
  assume eq: "todayKey (setDatePrevious d) = todayKey d"
  from assms have d: "1 \<le> getDate d" "getDate d \<le> 31"
    using daysInMonth_bounds [of "getFullYear d" "getMonth d"] by (simp_all add: validLocalDate_def)
  have p: "getDate (setDatePrevious d) < 100 \<and> getDate (setDatePrevious d) \<noteq> getDate d"
    using d daysInMonth_bounds [of "getFullYear d" "getMonth d - 1"]
    by (auto simp add: setDatePrevious_def)
  with d eq have "getDate (setDatePrevious d) = getDate d"
    by (intro todayKey_same_day) simp_all
  with p show False by simp
qed

lemma todayKey_nonempty: "todayKey d \<noteq> []"
  by (simp add: todayKey_def del: show_nat.simps)

text \<open>
  With a stored day the function does what claim C5 says: the stored count on the same
  day, the stored count plus one on the day after the stored day, 1 after any other
  stored day, and in the last two cases the new count and today's key are written.
\<close>

lemma updateStreak_same_day:
  assumes "st_streakLastDate st = Some (todayKey today)"
  shows "updateStreak today st = (storedCount st, st)"
  using assms by (simp add: updateStreak_def getStreak_def storedCount_def todayKey_nonempty)

lemma updateStreak_consecutive:
  assumes "validLocalDate today"
    and "st_streakLastDate st = Some (todayKey (setDatePrevious today))"
  shows "updateStreak today st =
           (storedCount st + 1,
            st\<lparr>st_streak := Some (storedCount st + 1), st_streakLastDate := Some (todayKey today)\<rparr>)"
  using assms todayKey_yesterday [OF assms(1)]
  by (simp add: updateStreak_def getStreak_def storedCount_def todayKey_nonempty Let_def)

lemma updateStreak_gap:
  assumes "st_streakLastDate st = Some k" and "k \<noteq> []"
    and "k \<noteq> todayKey today" and "k \<noteq> todayKey (setDatePrevious today)"
  shows "updateStreak today st =
           (1, st\<lparr>st_streak := Some 1, st_streakLastDate := Some (todayKey today)\<rparr>)"
  using assms by (simp add: updateStreak_def getStreak_def Let_def)

lemma updateStreak_twice:
  assumes "st_streak st \<noteq> Some (- 1)"
  shows "updateStreak today (snd (updateStreak today st)) =
           (fst (updateStreak today st), snd (updateStreak today st))"
  using assms
  by (auto simp add: updateStreak_def getStreak_def storedCount_def Let_def todayKey_nonempty
      split: option.splits)

lemma updateStreak_absent_day:
  assumes "st_streakLastDate st = None"
  shows "updateStreak today st = (storedCount st, st)"
  using assms by (simp add: updateStreak_def getStreak_def storedCount_def)

text \<open>
  Claim C5 fails on the empty store. On a fresh install \<open>getStreak\<close> takes today's key
  for the missing \<open>streakLastDate\<close>, so \<open>updateStreak\<close> finds the streak
  ``already updated today'', returns 1 and writes nothing; the store is still empty on
  the next day, where the count is 1 again and again nothing is written.
\<close>

theorem updateStreak_fresh_install:
  "updateStreak tenthOfMarch emptyStorage = (1, emptyStorage) \<and>
   setDatePrevious eleventhOfMarch = tenthOfMarch \<and>
   updateStreak eleventhOfMarch (snd (updateStreak tenthOfMarch emptyStorage)) = (1, emptyStorage)"
  by (simp add: updateStreak_def getStreak_def storedCount_def emptyStorage_def
      setDatePrevious_def tenthOfMarch_def eleventhOfMarch_def)

section \<open>The progress of an event\<close>

lemma clamp_Fin: "Math_min (Fin 100) (Math_max (Fin 0) (Fin x)) = Fin (min 100 (max 0 x))"
  by (simp add: min_def max_def)

lemma rounding_mono: "rounding fl \<Longrightarrow> x \<le> y \<Longrightarrow> fl x \<le> fl y"
  by (simp add: rounding_def)

lemma rounding_ge_1: "rounding fl \<Longrightarrow> 1 \<le> x \<Longrightarrow> 1 \<le> fl x"
  using rounding_mono [of fl 1 x] by (simp add: rounding_def)

lemma rounding_le_0: "rounding fl \<Longrightarrow> x \<le> 0 \<Longrightarrow> fl x \<le> 0"
  using rounding_mono [of fl x 0] by (simp add: rounding_def)

lemma rounding_le_m1: "rounding fl \<Longrightarrow> x \<le> - 1 \<Longrightarrow> fl x \<le> - 1"
  using rounding_mono [of fl x "- 1"] by (simp add: rounding_def)

lemma rounding_ge_100: "rounding fl \<Longrightarrow> 100 \<le> x \<Longrightarrow> 100 \<le> fl x"
  using rounding_mono [of fl 100 x] by (simp add: rounding_def)

lemma int_gap:
  assumes "s < t"
  shows "(1::rat) \<le> of_int t - of_int s"
proof -
  from assms have "1 \<le> t - s" by simp
  then have "(1::rat) \<le> of_int (t - s)" by (simp only: of_int_1_le_iff)
  then show ?thesis by simp
qed

text \<open>
  On the other events with valid dates and \<open>start <= end\<close> the function does what claim
  C4 says: for an event with \<open>start < end\<close> the progress is a number from 0 to 100, 0 up
  to the start and 100 from the end on, and for an event of length zero it is 100 after
  the start and 0 before it.
\<close>

lemma eventProgress_proper:
  assumes r: "rounding fl" and s: "ev_start e = Date s" and t: "ev_end e = Date t" and st: "s < t"
  shows "\<exists>p. eventProgress fl e (Date n) = Fin p \<and> 0 \<le> p \<and> p \<le> 100 \<and>
           (n \<le> s \<longrightarrow> p = 0) \<and> (t \<le> n \<longrightarrow> p = 100)"
proof -
  define T where "T = fl (of_int t - of_int s)"
  define L where "L = fl (of_int n - of_int s)"
  define x where "x = fl (fl (L / T) * 100)"
  from st have "(1::rat) \<le> of_int t - of_int s"
    by (rule int_gap)
  then have T: "1 \<le> T" unfolding T_def by (rule rounding_ge_1 [OF r])
  then have T0: "T \<noteq> 0" by simp
  have val: "eventProgress fl e (Date n) = Fin (min 100 (max 0 x))"
    using T0 by (simp add: eventProgress_def s t Let_def T_def [symmetric] L_def [symmetric]
        x_def [symmetric] clamp_Fin del: Math_min.simps Math_max.simps)
  have lo: "min 100 (max 0 x) = 0" if "n \<le> s"
  proof -
    from that have "(of_int n - of_int s :: rat) \<le> 0" by simp
    then have "L \<le> 0" unfolding L_def by (rule rounding_le_0 [OF r])
    with T have "L / T \<le> 0" by (simp add: divide_nonpos_pos)
    then have "fl (L / T) \<le> 0" by (rule rounding_le_0 [OF r])
    then have "fl (L / T) * 100 \<le> 0" by simp
    then have "x \<le> 0" unfolding x_def by (rule rounding_le_0 [OF r])
    then show ?thesis by simp
  qed
  have hi: "min 100 (max 0 x) = 100" if "t \<le> n"
  proof -
    from that have "(of_int t - of_int s :: rat) \<le> of_int n - of_int s" by simp
    then have "T \<le> L" unfolding T_def L_def by (rule rounding_mono [OF r])
    with T have "1 \<le> L / T" by (simp add: le_divide_eq)
    then have "1 \<le> fl (L / T)" by (rule rounding_ge_1 [OF r])
    then have "100 \<le> fl (L / T) * 100" by simp
    then have "100 \<le> x" unfolding x_def by (rule rounding_ge_100 [OF r])
    then show ?thesis by simp
  qed
  from val lo hi show ?thesis by simp
qed

lemma eventProgress_zero_length_apart:
  assumes r: "rounding fl" and s: "ev_start e = Date s" and t: "ev_end e = Date s" and ns: "n \<noteq> s"
  shows "eventProgress fl e (Date n) = Fin (if s < n then 100 else 0)"
proof -
  define L where "L = fl (of_int n - of_int s)"
  have z: "fl 0 = 0" using r by (simp add: rounding_def)
  show ?thesis
  proof (cases "s < n")
    case True
    then have "(1::rat) \<le> of_int n - of_int s"
      by (rule int_gap)
    then have "1 \<le> L" unfolding L_def by (rule rounding_ge_1 [OF r])
    then have "0 < L" by simp
    with True show ?thesis
      by (simp add: eventProgress_def s t Let_def z L_def [symmetric])
  next
    case False
    with ns have "n < s" by simp
    then have "(of_int n - of_int s :: rat) \<le> - 1"
      using int_gap [of n s] by simp
    then have "L \<le> - 1" unfolding L_def by (rule rounding_le_m1 [OF r])
    then have "L < 0" by simp
    with False show ?thesis
      by (simp add: eventProgress_def s t Let_def z L_def [symmetric])
  qed
qed

text \<open>
  Claim C4 fails at the start of an event of length zero: with \<open>start = end = now\<close> both
  differences are 0, the quotient \<open>0 / 0\<close> is \<open>NaN\<close>, and \<open>Math.max\<close> and \<open>Math.min\<close>
  return \<open>NaN\<close>, which is not 100 and not in the range 0 to 100.
\<close>

theorem eventProgress_zero_length_at_start:
  assumes "fl 0 = 0" and "ev_start e = Date t" and "ev_end e = Date t"
  shows "eventProgress fl e (Date t) = NaN"
  using assms by (simp add: eventProgress_def Let_def)

text \<open>
  Claim C4 at an event that starts and ends at 09:00, at 09:00.
\<close>

theorem eventProgress_zero_length_at_start_witness:
  "(\<lambda>x::rat. x) 0 = 0 \<and> ev_start (mkEvent ''z'' 32400000 32400000) = Date 32400000 \<and>
   ev_end (mkEvent ''z'' 32400000 32400000) = Date 32400000 \<and>
   eventProgress (\<lambda>x. x) (mkEvent ''z'' 32400000 32400000) (Date 32400000) = NaN"
  using eventProgress_zero_length_at_start [of "\<lambda>x. x" "mkEvent ''z'' 32400000 32400000" 32400000]
  by (simp add: mkEvent_def)

end
